theory Spec2Isabelle
  imports Main "HOL-Library.Word"
begin

section \<open>Values, envelopes and the response encoder\<close>

text \<open>
  The bridge (hanzoai/zap, Go) receives an envelope with a \<open>path\<close> text field and a
  \<open>body\<close> byte field and answers with an envelope of three fields. Five adapter files
  exist: \<open>internal/sql/proxy.go\<close>, \<open>internal/kv/proxy.go\<close>, the columnar adapter over
  HTTP, the columnar adapter over the native protocol, and the document adapter.

  Go strings and byte slices are byte sequences: \<open>string\<close>. A Go \<open>error\<close> is carried by
  its message. A value of type \<open>interface{}\<close> that comes out of \<open>encoding/json\<close> or goes
  into it is a \<open>jvalue\<close>; \<open>JNil\<close> is Go's \<open>nil\<close> (JSON \<open>null\<close>), and \<open>JObj\<close> is a Go
  map written as an association list (the order of its entries carries no meaning for
  the encoder, which sorts keys).
\<close>

type_synonym bytes = string
type_synonym error = string

datatype jvalue =
    JNil
  | JBool bool
  | JNum int
  | JStr string
  | JArr "jvalue list"
  | JObj "(string \<times> jvalue) list"

text \<open>
  The body of a response is either \<open>json.Marshal(data)\<close> (function \<open>respond\<close>) or raw
  bytes handed through (function \<open>respondRaw\<close>). The encoder of the standard library is
  not part of the repository; \<open>Marshal\<close> stands for its output on the given value. The
  envelope codec is not part of the repository either: a \<open>message\<close> is the three fields
  the builder is given.
\<close>

datatype payload = Marshal jvalue | Raw bytes

record message =
  status :: "32 word"
  body :: payload
  headers :: bytes

definition json_headers :: bytes where
  \<open>json_headers = ''{"Content-Type":["application/json"]}''\<close>

definition ndjson_headers :: bytes where
  \<open>ndjson_headers = ''{"Content-Type":["application/x-ndjson"]}''\<close>

text \<open>The \<open>net/http\<close> status constants the adapters use.\<close>

definition StatusOK :: int where "StatusOK = 200"
definition StatusBadRequest :: int where "StatusBadRequest = 400"
definition StatusNotFound :: int where "StatusNotFound = 404"
definition StatusInternalServerError :: int where "StatusInternalServerError = 500"
definition StatusBadGateway :: int where "StatusBadGateway = 502"
definition StatusServiceUnavailable :: int where "StatusServiceUnavailable = 503"

text \<open>
  \<open>respond(status int, data interface{})\<close>: the same function in all five files. The
  status is stored with \<open>SetUint32(respStatus, uint32(status))\<close>.
\<close>

definition respond :: "int \<Rightarrow> jvalue \<Rightarrow> message" where
  "respond st data = \<lparr>status = word_of_int st, body = Marshal data, headers = json_headers\<rparr>"

text \<open>\<open>respondRaw\<close> of the HTTP columnar adapter.\<close>

definition respondRaw :: "int \<Rightarrow> bytes \<Rightarrow> message" where
  "respondRaw st raw = \<lparr>status = word_of_int st, body = Raw raw, headers = ndjson_headers\<rparr>"

text \<open>\<open>map[string]string{"error": msg}\<close>, the payload of every error response.\<close>

definition error_body :: "string \<Rightarrow> jvalue" where
  "error_body msg = JObj [(''error'', JStr msg)]"

section \<open>Key-value adapter (internal/kv/proxy.go)\<close>

text \<open>
  The client driver and \<open>encoding/json\<close> are external: their answers are fields of the
  environment record. \<open>json.Unmarshal(body, &req)\<close> takes the request value it writes
  into and gives it back together with the error; every call site starts from the zero
  value of its struct. \<open>client.Get(ctx, key).Result()\<close> has three outcomes: a value, the
  sentinel \<open>kv.Nil\<close>, or another error.
\<close>

datatype get_result = GetVal string | GetNil | GetErr error

record kvCmd =
  kvCmd_Cmd :: string
  kvCmd_Args :: "string list"

record kvGetReq =
  kvGet_Key :: string

record kvSetReq =
  kvSet_Key :: string
  kvSet_Value :: string

record kvMGetReq =
  kvMGet_Keys :: "string list"

definition kvCmd_zero :: kvCmd where
  "kvCmd_zero = \<lparr>kvCmd_Cmd = [], kvCmd_Args = []\<rparr>"

definition kvGetReq_zero :: kvGetReq where
  "kvGetReq_zero = \<lparr>kvGet_Key = []\<rparr>"

definition kvSetReq_zero :: kvSetReq where
  "kvSetReq_zero = \<lparr>kvSet_Key = [], kvSet_Value = []\<rparr>"

definition kvMGetReq_zero :: kvMGetReq where
  "kvMGetReq_zero = \<lparr>kvMGet_Keys = []\<rparr>"

record kv_env =
  kv_Ping :: "error option"
  kv_Get :: "string \<Rightarrow> get_result"
  kv_Set :: "string \<Rightarrow> string \<Rightarrow> error option"
  kv_MGet :: "string list \<Rightarrow> error + jvalue"
  kv_Do :: "string list \<Rightarrow> error + jvalue"
  kv_Unmarshal_cmd :: "bytes \<Rightarrow> kvCmd \<Rightarrow> kvCmd \<times> error option"
  kv_Unmarshal_get :: "bytes \<Rightarrow> kvGetReq \<Rightarrow> kvGetReq \<times> error option"
  kv_Unmarshal_set :: "bytes \<Rightarrow> kvSetReq \<Rightarrow> kvSetReq \<times> error option"
  kv_Unmarshal_mget :: "bytes \<Rightarrow> kvMGetReq \<Rightarrow> kvMGetReq \<times> error option"
  kv_Fields :: "string \<Rightarrow> string list"

text \<open>The calls an operation makes on the client, in order.\<close>

datatype kv_call =
    KvPing
  | KvGet string
  | KvSet string string
  | KvMGet "string list"
  | KvDo "string list"

text \<open>
  \<open>kv_do\<close> is the second half of \<open>cmd\<close>, from \<open>args := make(...)\<close> on: the command and
  its arguments go to \<open>client.Do\<close> as one list.
\<close>

definition kv_do :: "kv_env \<Rightarrow> kvCmd \<Rightarrow> message \<times> kv_call list" where
  "kv_do p req =
     (let args = kvCmd_Cmd req # kvCmd_Args req in
      (case kv_Do p args of
         Inl err \<Rightarrow> respond StatusInternalServerError (error_body err)
       | Inr result \<Rightarrow> respond StatusOK (JObj [(''result'', result)]),
       [KvDo args]))"

definition kv_cmd :: "kv_env \<Rightarrow> bytes \<Rightarrow> message \<times> kv_call list" where
  "kv_cmd p b =
     (case kv_Unmarshal_cmd p b kvCmd_zero of
        (req, Some err) \<Rightarrow>
          (case kv_Fields p b of
             [] \<Rightarrow> (respond StatusBadRequest (error_body ''empty command''), [])
           | part # parts \<Rightarrow> kv_do p (req\<lparr>kvCmd_Cmd := part, kvCmd_Args := parts\<rparr>))
      | (req, None) \<Rightarrow> kv_do p req)"

definition kv_get :: "kv_env \<Rightarrow> bytes \<Rightarrow> message \<times> kv_call list" where
  "kv_get p b =
     (let req = (case kv_Unmarshal_get p b kvGetReq_zero of
                   (req, Some err) \<Rightarrow> req\<lparr>kvGet_Key := b\<rparr>
                 | (req, None) \<Rightarrow> req) in
      (case kv_Get p (kvGet_Key req) of
         GetNil \<Rightarrow> respond StatusOK (JObj [(''value'', JNil)])
       | GetErr err \<Rightarrow> respond StatusInternalServerError (error_body err)
       | GetVal val \<Rightarrow> respond StatusOK (JObj [(''value'', JStr val)]),
       [KvGet (kvGet_Key req)]))"

definition kv_set :: "kv_env \<Rightarrow> bytes \<Rightarrow> message \<times> kv_call list" where
  "kv_set p b =
     (case kv_Unmarshal_set p b kvSetReq_zero of
        (req, Some err) \<Rightarrow> (respond StatusBadRequest (error_body err), [])
      | (req, None) \<Rightarrow>
          (case kv_Set p (kvSet_Key req) (kvSet_Value req) of
             Some err \<Rightarrow> respond StatusInternalServerError (error_body err)
           | None \<Rightarrow> respond StatusOK (JObj [(''status'', JStr ''OK'')]),
           [KvSet (kvSet_Key req) (kvSet_Value req)]))"

definition kv_mget :: "kv_env \<Rightarrow> bytes \<Rightarrow> message \<times> kv_call list" where
  "kv_mget p b =
     (case kv_Unmarshal_mget p b kvMGetReq_zero of
        (req, Some err) \<Rightarrow> (respond StatusBadRequest (error_body err), [])
      | (req, None) \<Rightarrow>
          (case kv_MGet p (kvMGet_Keys req) of
             Inl err \<Rightarrow> respond StatusInternalServerError (error_body err)
           | Inr vals \<Rightarrow> respond StatusOK (JObj [(''values'', vals)]),
           [KvMGet (kvMGet_Keys req)]))"

definition kv_health :: "kv_env \<Rightarrow> message \<times> kv_call list" where
  "kv_health p =
     (case kv_Ping p of
        Some err \<Rightarrow> respond StatusServiceUnavailable (error_body err)
      | None \<Rightarrow> respond StatusOK (JObj [(''status'', JStr ''ok''), (''service'', JStr ''hanzo-kv'')]),
      [KvPing])"

definition kv_routes :: "string list" where
  "kv_routes = [''/health'', ''/get'', ''/set'', ''/mget'', ''/cmd'']"

definition kv_handle :: "kv_env \<Rightarrow> string \<Rightarrow> bytes \<Rightarrow> message \<times> kv_call list" where
  "kv_handle p path b =
     (if path = ''/health'' then kv_health p
      else if path = ''/get'' then kv_get p b
      else if path = ''/set'' then kv_set p b
      else if path = ''/mget'' then kv_mget p b
      else if path = ''/cmd'' then kv_cmd p b
      else if length b > 0 then kv_cmd p b
      else (respond StatusNotFound (error_body (''unknown: '' @ path)), []))"

subsection \<open>An environment to run the adapter on\<close>

text \<open>
  \<open>strings.Fields\<close> on ASCII text: the maximal runs of characters that are not white
  space (space, tab, line feed, vertical tab, form feed, carriage return).
\<close>

definition is_space :: "char \<Rightarrow> bool" where
  "is_space c = (c \<in> set [CHR '' '', CHR 0x09, CHR 0x0A, CHR 0x0B, CHR 0x0C, CHR 0x0D])"

function ascii_fields :: "string \<Rightarrow> string list" where
  "ascii_fields s =
     (case dropWhile is_space s of
        [] \<Rightarrow> []
      | c # cs \<Rightarrow> takeWhile (\<lambda>x. \<not> is_space x) (c # cs)
                 # ascii_fields (dropWhile (\<lambda>x. \<not> is_space x) cs))"
  by pat_completeness auto
termination
proof (relation "measure length")
  show "wf (measure length)" by simp
next
  fix s :: string and c cs
  assume "dropWhile is_space s = c # cs"
  then have "length (c # cs) \<le> length s"
    by (metis length_dropWhile_le)
  moreover have "length (dropWhile (\<lambda>x. \<not> is_space x) cs) \<le> length cs"
    by (rule length_dropWhile_le)
  ultimately show "(dropWhile (\<lambda>x. \<not> is_space x) cs, s) \<in> measure length"
    by simp
qed

text \<open>
  A store that holds the single key \<open>bar\<close> and fails on the key \<open>down\<close>, with a decoder
  that knows the bodies \<open>{"key":"foo"}\<close> and \<open>{"key":"down"}\<close> and rejects every other body
  without touching the request.
\<close>

definition kv_example :: kv_env where
  \<open>kv_example = \<lparr>
     kv_Ping = None,
     kv_Get = (\<lambda>k. if k = ''bar'' then GetVal ''1''
                    else if k = ''down'' then GetErr ''connection refused''
                    else GetNil),
     kv_Set = (\<lambda>k v. None),
     kv_MGet = (\<lambda>ks. Inr (JArr (map (\<lambda>k. if k = ''bar'' then JStr ''1'' else JNil) ks))),
     kv_Do = (\<lambda>args. Inr (JStr ''PONG'')),
     kv_Unmarshal_cmd = (\<lambda>b req. (req, Some ''invalid character'')),
     kv_Unmarshal_get = (\<lambda>b req.
        if b = ''{"key":"foo"}'' then (req\<lparr>kvGet_Key := ''foo''\<rparr>, None)
        else if b = ''{"key":"down"}'' then (req\<lparr>kvGet_Key := ''down''\<rparr>, None)
        else (req, Some ''invalid character'')),
     kv_Unmarshal_set = (\<lambda>b req. (req, Some ''invalid character'')),
     kv_Unmarshal_mget = (\<lambda>b req. (req, Some ''invalid character'')),
     kv_Fields = ascii_fields\<rparr>\<close>

section \<open>Relational adapter (internal/sql/proxy.go)\<close>

text \<open>
  A handler either returns its response or panics before building one (Go's run-time
  panic on an index out of range or on a nil pointer): \<open>Panic\<close> is that outcome.
\<close>

datatype reply = Reply message | Panic

record sqlReq =
  sqlReq_SQL :: string
  sqlReq_Args :: "jvalue list"

definition sqlReq_zero :: sqlReq where
  "sqlReq_zero = \<lparr>sqlReq_SQL = [], sqlReq_Args = []\<rparr>"

text \<open>
  What \<open>pool.Query\<close> hands back: the names of \<open>rows.FieldDescriptions()\<close> and, for each
  round of \<open>rows.Next()\<close>, the result of \<open>rows.Values()\<close>.
\<close>

record sql_rows =
  sql_descs :: "string list"
  sql_values :: "(error + jvalue list) list"

record sql_env =
  sql_Ping :: "error option"
  sql_Query :: "string \<Rightarrow> jvalue list \<Rightarrow> error + sql_rows"
  sql_Exec :: "string \<Rightarrow> jvalue list \<Rightarrow> error + int \<times> string"
  sql_Unmarshal :: "bytes \<Rightarrow> sqlReq \<Rightarrow> sqlReq \<times> error option"

datatype sql_call =
    SqlPing
  | SqlQuery string "jvalue list"
  | SqlExec string "jvalue list"

text \<open>\<open>m[k] = v\<close> on a Go map kept as an association list.\<close>

fun map_put :: "(string \<times> jvalue) list \<Rightarrow> string \<Rightarrow> jvalue \<Rightarrow> (string \<times> jvalue) list" where
  "map_put [] k v = [(k, v)]"
| "map_put ((k', v') # m) k v = (if k' = k then (k, v) # m else (k', v') # map_put m k v)"

text \<open>
  A slice that was declared with \<open>var\<close> and only ever appended to is \<open>nil\<close> while it is
  empty, and \<open>nil\<close> is what the encoder is given then.
\<close>

definition slice_value :: "jvalue list \<Rightarrow> jvalue" where
  "slice_value xs = (if xs = [] then JNil else JArr xs)"

text \<open>
  \<open>for i, d := range descs { row[string(d.Name)] = vals[i] }\<close>: reading \<open>vals[i]\<close> past
  the end of \<open>vals\<close> panics.
\<close>

fun sql_row :: "string list \<Rightarrow> jvalue list \<Rightarrow> (string \<times> jvalue) list
                 \<Rightarrow> (string \<times> jvalue) list option" where
  "sql_row [] vals row = Some row"
| "sql_row (d # ds) [] row = None"
| "sql_row (d # ds) (v # vals) row = sql_row ds vals (map_put row d v)"

fun sql_collect :: "string list \<Rightarrow> (error + jvalue list) list \<Rightarrow> jvalue list \<Rightarrow> reply" where
  "sql_collect descs [] results =
     Reply (respond StatusOK
       (JObj [(''rows'', slice_value results), (''count'', JNum (int (length results)))]))"
| "sql_collect descs (Inl err # rest) results =
     Reply (respond StatusInternalServerError (error_body err))"
| "sql_collect descs (Inr vals # rest) results =
     (case sql_row descs vals [] of
        None \<Rightarrow> Panic
      | Some row \<Rightarrow> sql_collect descs rest (results @ [JObj row]))"

definition sql_query :: "sql_env \<Rightarrow> bytes \<Rightarrow> reply \<times> sql_call list" where
  "sql_query p b =
     (let req = (case sql_Unmarshal p b sqlReq_zero of
                   (req, Some err) \<Rightarrow> req\<lparr>sqlReq_SQL := b\<rparr>
                 | (req, None) \<Rightarrow> req) in
      (case sql_Query p (sqlReq_SQL req) (sqlReq_Args req) of
         Inl err \<Rightarrow> Reply (respond StatusInternalServerError (error_body err))
       | Inr rows \<Rightarrow> sql_collect (sql_descs rows) (sql_values rows) [],
       [SqlQuery (sqlReq_SQL req) (sqlReq_Args req)]))"

definition sql_exec :: "sql_env \<Rightarrow> bytes \<Rightarrow> reply \<times> sql_call list" where
  "sql_exec p b =
     (let req = (case sql_Unmarshal p b sqlReq_zero of
                   (req, Some err) \<Rightarrow> req\<lparr>sqlReq_SQL := b\<rparr>
                 | (req, None) \<Rightarrow> req) in
      (case sql_Exec p (sqlReq_SQL req) (sqlReq_Args req) of
         Inl err \<Rightarrow> Reply (respond StatusInternalServerError (error_body err))
       | Inr (affected, tag) \<Rightarrow>
           Reply (respond StatusOK
             (JObj [(''rows_affected'', JNum affected), (''command'', JStr tag)])),
       [SqlExec (sqlReq_SQL req) (sqlReq_Args req)]))"

definition sql_health :: "sql_env \<Rightarrow> reply \<times> sql_call list" where
  "sql_health p =
     (case sql_Ping p of
        Some err \<Rightarrow> Reply (respond StatusServiceUnavailable (error_body err))
      | None \<Rightarrow> Reply (respond StatusOK
                  (JObj [(''status'', JStr ''ok''), (''service'', JStr ''hanzo-sql'')])),
      [SqlPing])"

definition sql_routes :: "string list" where
  "sql_routes = [''/query'', ''/exec'', ''/health'']"

definition sql_handle :: "sql_env \<Rightarrow> string \<Rightarrow> bytes \<Rightarrow> reply \<times> sql_call list" where
  "sql_handle p path b =
     (if path = ''/query'' then sql_query p b
      else if path = ''/exec'' then sql_exec p b
      else if path = ''/health'' then sql_health p
      else if length b > 0 then sql_query p b
      else (Reply (respond StatusNotFound (error_body (''unknown: '' @ path))), []))"

text \<open>
  A database with one table and a decoder that behaves as \<open>encoding/json\<close> does on three
  bodies: \<open>{"sql":"SELECT 1"}\<close> decodes; \<open>{"args":[1],"sql":5}\<close> is valid JSON whose
  \<open>args\<close> member fits the field and is stored, and whose \<open>sql\<close> member is a number where a
  string is expected, which is skipped and reported as an \<open>UnmarshalTypeError\<close> once the
  whole object has been read; any other body is rejected as a syntax error, before
  anything is stored.
\<close>

definition sql_example :: sql_env where
  \<open>sql_example = \<lparr>
     sql_Ping = None,
     sql_Query = (\<lambda>q args.
        if q = ''SELECT 1'' then Inr \<lparr>sql_descs = [''?column?''], sql_values = [Inr [JNum 1]]\<rparr>
        else Inl ''ERROR: syntax error''),
     sql_Exec = (\<lambda>q args.
        if q = ''DELETE FROM t'' then Inr (0, ''DELETE 0'') else Inl ''ERROR: syntax error''),
     sql_Unmarshal = (\<lambda>b req.
        if b = ''{"sql":"SELECT 1"}'' then (req\<lparr>sqlReq_SQL := ''SELECT 1''\<rparr>, None)
        else if b = ''{"args":[1],"sql":5}'' then
          (req\<lparr>sqlReq_Args := [JNum 1]\<rparr>,
           Some ''json: cannot unmarshal number into Go struct field sqlReq.sql of type string'')
        else (req, Some ''invalid character''))\<rparr>\<close>

section \<open>Document adapter\<close>

text \<open>
  \<open>bson.M\<close> is a Go map; a filter, an update or a document is a \<open>jvalue\<close>. A cursor is
  what \<open>cursor.All\<close> yields: an error or the documents.
\<close>

record findReq =
  findReq_Collection :: string
  findReq_Filter :: jvalue
  findReq_Limit :: int
  findReq_Database :: string

record docInsertReq =
  docInsertReq_Collection :: string
  docInsertReq_Documents :: "jvalue list"
  docInsertReq_Database :: string

record updateReq =
  updateReq_Collection :: string
  updateReq_Filter :: jvalue
  updateReq_Update :: jvalue
  updateReq_Database :: string

record deleteReq =
  deleteReq_Collection :: string
  deleteReq_Filter :: jvalue
  deleteReq_Database :: string

definition findReq_zero :: findReq where
  "findReq_zero = \<lparr>findReq_Collection = [], findReq_Filter = JNil, findReq_Limit = 0,
                    findReq_Database = []\<rparr>"

definition docInsertReq_zero :: docInsertReq where
  "docInsertReq_zero = \<lparr>docInsertReq_Collection = [], docInsertReq_Documents = [],
                         docInsertReq_Database = []\<rparr>"

definition updateReq_zero :: updateReq where
  "updateReq_zero = \<lparr>updateReq_Collection = [], updateReq_Filter = JNil,
                      updateReq_Update = JNil, updateReq_Database = []\<rparr>"

definition deleteReq_zero :: deleteReq where
  "deleteReq_zero = \<lparr>deleteReq_Collection = [], deleteReq_Filter = JNil,
                      deleteReq_Database = []\<rparr>"

record doc_env =
  doc_db :: string
  doc_Ping :: "error option"
  doc_Find :: "string \<Rightarrow> string \<Rightarrow> jvalue \<Rightarrow> int option \<Rightarrow> error + (error + jvalue list)"
  doc_InsertMany :: "string \<Rightarrow> string \<Rightarrow> jvalue list \<Rightarrow> error + jvalue list"
  doc_UpdateMany :: "string \<Rightarrow> string \<Rightarrow> jvalue \<Rightarrow> jvalue \<Rightarrow> error + int \<times> int"
  doc_DeleteMany :: "string \<Rightarrow> string \<Rightarrow> jvalue \<Rightarrow> error + int"
  doc_Unmarshal_find :: "bytes \<Rightarrow> findReq \<Rightarrow> findReq \<times> error option"
  doc_Unmarshal_insert :: "bytes \<Rightarrow> docInsertReq \<Rightarrow> docInsertReq \<times> error option"
  doc_Unmarshal_update :: "bytes \<Rightarrow> updateReq \<Rightarrow> updateReq \<times> error option"
  doc_Unmarshal_delete :: "bytes \<Rightarrow> deleteReq \<Rightarrow> deleteReq \<times> error option"

datatype doc_call =
    DocPing
  | DocFind string string jvalue "int option"
  | DocInsertMany string string "jvalue list"
  | DocUpdateMany string string jvalue jvalue
  | DocDeleteMany string string jvalue

text \<open>\<open>db := p.db; if req.Database != "" { db = req.Database }\<close>\<close>

definition doc_pick_db :: "doc_env \<Rightarrow> string \<Rightarrow> string" where
  "doc_pick_db p database = (if database \<noteq> [] then database else doc_db p)"

definition doc_find :: "doc_env \<Rightarrow> bytes \<Rightarrow> message \<times> doc_call list" where
  "doc_find p b =
     (case doc_Unmarshal_find p b findReq_zero of
        (req, Some err) \<Rightarrow> (respond StatusBadRequest (error_body err), [])
      | (req, None) \<Rightarrow>
          (let db = doc_pick_db p (findReq_Database req);
               limit = (if findReq_Limit req > 0 then Some (findReq_Limit req) else None) in
           (case doc_Find p db (findReq_Collection req) (findReq_Filter req) limit of
              Inl err \<Rightarrow> respond StatusInternalServerError (error_body err)
            | Inr (Inl err) \<Rightarrow> respond StatusInternalServerError (error_body err)
            | Inr (Inr results) \<Rightarrow>
                respond StatusOK
                  (JObj [(''documents'', JArr results),
                         (''count'', JNum (int (length results)))]),
            [DocFind db (findReq_Collection req) (findReq_Filter req) limit])))"

definition doc_insert :: "doc_env \<Rightarrow> bytes \<Rightarrow> message \<times> doc_call list" where
  "doc_insert p b =
     (case doc_Unmarshal_insert p b docInsertReq_zero of
        (req, Some err) \<Rightarrow> (respond StatusBadRequest (error_body err), [])
      | (req, None) \<Rightarrow>
          (let db = doc_pick_db p (docInsertReq_Database req);
               docs = docInsertReq_Documents req in
           (case doc_InsertMany p db (docInsertReq_Collection req) docs of
              Inl err \<Rightarrow> respond StatusInternalServerError (error_body err)
            | Inr ids \<Rightarrow>
                respond StatusOK
                  (JObj [(''inserted_ids'', JArr ids),
                         (''count'', JNum (int (length ids)))]),
            [DocInsertMany db (docInsertReq_Collection req) docs])))"

definition doc_update :: "doc_env \<Rightarrow> bytes \<Rightarrow> message \<times> doc_call list" where
  "doc_update p b =
     (case doc_Unmarshal_update p b updateReq_zero of
        (req, Some err) \<Rightarrow> (respond StatusBadRequest (error_body err), [])
      | (req, None) \<Rightarrow>
          (let db = doc_pick_db p (updateReq_Database req) in
           (case doc_UpdateMany p db (updateReq_Collection req) (updateReq_Filter req)
                   (updateReq_Update req) of
              Inl err \<Rightarrow> respond StatusInternalServerError (error_body err)
            | Inr (matched, modified) \<Rightarrow>
                respond StatusOK
                  (JObj [(''matched_count'', JNum matched), (''modified_count'', JNum modified)]),
            [DocUpdateMany db (updateReq_Collection req) (updateReq_Filter req)
               (updateReq_Update req)])))"

definition doc_del :: "doc_env \<Rightarrow> bytes \<Rightarrow> message \<times> doc_call list" where
  "doc_del p b =
     (case doc_Unmarshal_delete p b deleteReq_zero of
        (req, Some err) \<Rightarrow> (respond StatusBadRequest (error_body err), [])
      | (req, None) \<Rightarrow>
          (let db = doc_pick_db p (deleteReq_Database req) in
           (case doc_DeleteMany p db (deleteReq_Collection req) (deleteReq_Filter req) of
              Inl err \<Rightarrow> respond StatusInternalServerError (error_body err)
            | Inr deleted \<Rightarrow> respond StatusOK (JObj [(''deleted_count'', JNum deleted)]),
            [DocDeleteMany db (deleteReq_Collection req) (deleteReq_Filter req)])))"

definition doc_health :: "doc_env \<Rightarrow> message \<times> doc_call list" where
  "doc_health p =
     (case doc_Ping p of
        Some err \<Rightarrow> respond StatusServiceUnavailable (error_body err)
      | None \<Rightarrow> respond StatusOK
                  (JObj [(''status'', JStr ''ok''), (''service'', JStr ''hanzo-documentdb'')]),
      [DocPing])"

definition doc_routes :: "string list" where
  "doc_routes = [''/find'', ''/insert'', ''/update'', ''/delete'', ''/health'']"

definition doc_handle :: "doc_env \<Rightarrow> string \<Rightarrow> bytes \<Rightarrow> message \<times> doc_call list" where
  "doc_handle p path b =
     (if path = ''/find'' then doc_find p b
      else if path = ''/insert'' then doc_insert p b
      else if path = ''/update'' then doc_update p b
      else if path = ''/delete'' then doc_del p b
      else if path = ''/health'' then doc_health p
      else (respond StatusNotFound (error_body (''unknown path: '' @ path)), []))"

text \<open>An empty document store whose decoders reject every body.\<close>

definition doc_example :: doc_env where
  "doc_example = \<lparr>
     doc_db = ''hanzo'',
     doc_Ping = None,
     doc_Find = (\<lambda>db coll filter limit. Inr (Inr [])),
     doc_InsertMany = (\<lambda>db coll docs. Inr (map (\<lambda>d. JStr ''id'') docs)),
     doc_UpdateMany = (\<lambda>db coll filter update. Inr (0, 0)),
     doc_DeleteMany = (\<lambda>db coll filter. Inr 0),
     doc_Unmarshal_find = (\<lambda>b req. (req, Some ''invalid character'')),
     doc_Unmarshal_insert = (\<lambda>b req. (req, Some ''invalid character'')),
     doc_Unmarshal_update = (\<lambda>b req. (req, Some ''invalid character'')),
     doc_Unmarshal_delete = (\<lambda>b req. (req, Some ''invalid character''))\<rparr>"

section \<open>Columnar adapter, native protocol\<close>

text \<open>
  A row of a bulk insert is a Go \<open>map[string]interface{}\<close>: a map from column names to
  values. Reading \<open>row[col]\<close> for a key that is absent gives \<open>nil\<close>.
\<close>

type_synonym row = "string \<rightharpoonup> jvalue"

definition row_get :: "row \<Rightarrow> string \<Rightarrow> jvalue" where
  "row_get r col = (case r col of None \<Rightarrow> JNil | Some v \<Rightarrow> v)"

record dsQuery =
  dsQuery_SQL :: string
  dsQuery_Database :: string

record dsExec =
  dsExec_SQL :: string
  dsExec_Args :: "jvalue list"

record insertReq =
  insertReq_Table :: string
  insertReq_Database :: string
  insertReq_Columns :: "string list"
  insertReq_Rows :: "row list"

record tablesReq =
  tablesReq_Database :: string

definition dsQuery_zero :: dsQuery where
  "dsQuery_zero = \<lparr>dsQuery_SQL = [], dsQuery_Database = []\<rparr>"

definition dsExec_zero :: dsExec where
  "dsExec_zero = \<lparr>dsExec_SQL = [], dsExec_Args = []\<rparr>"

definition insertReq_zero :: insertReq where
  "insertReq_zero = \<lparr>insertReq_Table = [], insertReq_Database = [], insertReq_Columns = [],
                       insertReq_Rows = []\<rparr>"

definition tablesReq_zero :: tablesReq where
  "tablesReq_zero = \<lparr>tablesReq_Database = []\<rparr>"

text \<open>
  What \<open>conn.Query\<close> hands back: the column names, for each round of \<open>rows.Next()\<close> the
  outcome of \<open>rows.Scan\<close> (the scanned values, or an error), and \<open>rows.Err()\<close>.
\<close>

record ds_rows =
  ds_columns :: "string list"
  ds_scans :: "(error + jvalue list) list"
  ds_rows_err :: "error option"

text \<open>
  The driver and the runtime, as the adapter sees them. \<open>ds_Append batch vals\<close> is the
  answer of \<open>batch.Append(vals...)\<close> when \<open>batch\<close> holds the rows appended before;
  \<open>ds_Send batch\<close> is the answer of \<open>batch.Send()\<close>. \<open>ds_range m\<close> is the order in which
  \<open>for k := range m\<close> visits the keys of \<open>m\<close>: Go leaves it unspecified, every key is
  visited once.
\<close>

record ds_env =
  ds_database :: string
  ds_Ping :: "error option"
  ds_ServerVersion :: "(nat \<times> nat \<times> nat) option"
  ds_Query :: "string \<Rightarrow> jvalue list \<Rightarrow> error + ds_rows"
  ds_Exec :: "string \<Rightarrow> jvalue list \<Rightarrow> error option"
  ds_PrepareBatch :: "string \<Rightarrow> error option"
  ds_Append :: "jvalue list list \<Rightarrow> jvalue list \<Rightarrow> error option"
  ds_Send :: "jvalue list list \<Rightarrow> error option"
  ds_range :: "row \<Rightarrow> string list"
  ds_Unmarshal_query :: "bytes \<Rightarrow> dsQuery \<Rightarrow> dsQuery \<times> error option"
  ds_Unmarshal_exec :: "bytes \<Rightarrow> dsExec \<Rightarrow> dsExec \<times> error option"
  ds_Unmarshal_insert :: "bytes \<Rightarrow> insertReq \<Rightarrow> insertReq \<times> error option"
  ds_Unmarshal_tables :: "bytes \<Rightarrow> tablesReq \<Rightarrow> tablesReq \<times> error option"

datatype ds_call =
    DsPing
  | DsServerVersion
  | DsQuery string "jvalue list"
  | DsExec string "jvalue list"
  | DsPrepareBatch string
  | DsAppend "jvalue list"
  | DsSend

fun is_Append :: "ds_call \<Rightarrow> bool" where
  "is_Append (DsAppend vals) = True"
| "is_Append _ = False"

text \<open>
  \<open>vals := make([]interface{}, n)\<close> followed by \<open>rows.Scan\<close> into pointers to its
  elements: \<open>n\<close> values, \<open>nil\<close> where nothing was written.
\<close>

definition scan_vals :: "nat \<Rightarrow> jvalue list \<Rightarrow> jvalue list" where
  "scan_vals n out = map (\<lambda>i. if i < length out then out ! i else JNil) [0..<n]"

definition ds_make_row :: "string list \<Rightarrow> jvalue list \<Rightarrow> jvalue" where
  "ds_make_row colNames vals =
     JObj (foldl (\<lambda>row (name, v). map_put row name v) [] (zip colNames vals))"

fun ds_collect :: "string list \<Rightarrow> (error + jvalue list) list \<Rightarrow> error option \<Rightarrow> jvalue list
                    \<Rightarrow> message" where
  "ds_collect colNames [] rows_err results =
     (case rows_err of
        Some err \<Rightarrow> respond StatusBadGateway (error_body err)
      | None \<Rightarrow> respond StatusOK
          (JObj [(''rows'', slice_value results), (''count'', JNum (int (length results)))]))"
| "ds_collect colNames (Inl err # rest) rows_err results =
     respond StatusInternalServerError (error_body err)"
| "ds_collect colNames (Inr out # rest) rows_err results =
     ds_collect colNames rest rows_err
       (results @ [ds_make_row colNames (scan_vals (length colNames) out)])"

definition ds_query :: "ds_env \<Rightarrow> bytes \<Rightarrow> message \<times> ds_call list" where
  "ds_query p b =
     (let req = (case ds_Unmarshal_query p b dsQuery_zero of
                   (req, Some err) \<Rightarrow> req\<lparr>dsQuery_SQL := b\<rparr>
                 | (req, None) \<Rightarrow> req) in
      (case ds_Query p (dsQuery_SQL req) [] of
         Inl err \<Rightarrow> respond StatusBadGateway (error_body err)
       | Inr rows \<Rightarrow> ds_collect (ds_columns rows) (ds_scans rows) (ds_rows_err rows) [],
       [DsQuery (dsQuery_SQL req) []]))"

definition ds_exec :: "ds_env \<Rightarrow> bytes \<Rightarrow> message \<times> ds_call list" where
  "ds_exec p b =
     (case ds_Unmarshal_exec p b dsExec_zero of
        (req, Some err) \<Rightarrow> (respond StatusBadRequest (error_body err), [])
      | (req, None) \<Rightarrow>
          (case ds_Exec p (dsExec_SQL req) (dsExec_Args req) of
             Some err \<Rightarrow> respond StatusBadGateway (error_body err)
           | None \<Rightarrow> respond StatusOK (JObj [(''status'', JStr ''ok'')]),
           [DsExec (dsExec_SQL req) (dsExec_Args req)]))"

text \<open>
  The loop over \<open>req.Rows\<close> of \<open>insert\<close>: each row is turned into \<open>vals\<close> by reading
  \<open>row[col]\<close> for every column of \<open>cols\<close>, and appended; the first failing append ends
  the loop with its error. The result is the error or the batch, and the calls made.
\<close>

fun ds_append_rows :: "ds_env \<Rightarrow> string list \<Rightarrow> row list \<Rightarrow> jvalue list list
                        \<Rightarrow> (error + jvalue list list) \<times> ds_call list" where
  "ds_append_rows p cols [] batch = (Inr batch, [])"
| "ds_append_rows p cols (r # rest) batch =
     (let vals = map (row_get r) cols in
      (case ds_Append p batch vals of
         Some err \<Rightarrow> (Inl err, [DsAppend vals])
       | None \<Rightarrow>
           (case ds_append_rows p cols rest (batch @ [vals]) of
              (res, calls) \<Rightarrow> (res, DsAppend vals # calls))))"

text \<open>\<open>colList\<close>: the columns joined with a comma and a space.\<close>

fun join_cols :: "string list \<Rightarrow> string" where
  "join_cols [] = []"
| "join_cols [c] = c"
| "join_cols (c # d # cs) = c @ '', '' @ join_cols (d # cs)"

text \<open>The column list of \<open>insert\<close>: the given one, or the keys of the first row.\<close>

definition ds_insert_cols :: "ds_env \<Rightarrow> insertReq \<Rightarrow> string list" where
  "ds_insert_cols p req =
     (if length (insertReq_Columns req) = 0 \<and> length (insertReq_Rows req) > 0
      then insertReq_Columns req @ ds_range p (hd (insertReq_Rows req))
      else insertReq_Columns req)"

definition ds_insert_sql :: "ds_env \<Rightarrow> insertReq \<Rightarrow> string" where
  "ds_insert_sql p req =
     (let table = (if insertReq_Database req \<noteq> [] \<and> insertReq_Database req \<noteq> ds_database p
                   then insertReq_Database req @ ''.'' @ insertReq_Table req
                   else insertReq_Table req) in
      ''INSERT INTO '' @ table @ '' ('' @ join_cols (ds_insert_cols p req) @ '')'')"

definition ds_insert :: "ds_env \<Rightarrow> bytes \<Rightarrow> message \<times> ds_call list" where
  "ds_insert p b =
     (case ds_Unmarshal_insert p b insertReq_zero of
        (req, Some err) \<Rightarrow> (respond StatusBadRequest (error_body err), [])
      | (req, None) \<Rightarrow>
          if length (insertReq_Rows req) = 0
          then (respond StatusBadRequest (error_body ''no rows''), [])
          else
            (let cols = ds_insert_cols p req; sql = ds_insert_sql p req in
             (case ds_PrepareBatch p sql of
                Some err \<Rightarrow> (respond StatusBadGateway (error_body err), [DsPrepareBatch sql])
              | None \<Rightarrow>
                  (case ds_append_rows p cols (insertReq_Rows req) [] of
                     (Inl err, calls) \<Rightarrow>
                       (respond StatusBadRequest (error_body (''row append: '' @ err)),
                        DsPrepareBatch sql # calls)
                   | (Inr batch, calls) \<Rightarrow>
                       (case ds_Send p batch of
                          Some err \<Rightarrow> respond StatusBadGateway (error_body err)
                        | None \<Rightarrow>
                            respond StatusOK
                              (JObj [(''status'', JStr ''ok''),
                                     (''inserted'', JNum (int (length (insertReq_Rows req))))]),
                        DsPrepareBatch sql # calls @ [DsSend])))))"

text \<open>
  \<open>tables\<close>: the error of \<open>json.Unmarshal\<close> is dropped; a row whose \<open>Scan\<close> fails is
  skipped.
\<close>

definition tableInfo :: "jvalue list \<Rightarrow> jvalue" where
  "tableInfo out =
     (let vals = scan_vals 4 out in
      JObj [(''name'', vals ! 0), (''engine'', vals ! 1),
            (''total_rows'', vals ! 2), (''total_bytes'', vals ! 3)])"

fun ds_collect_tables :: "(error + jvalue list) list \<Rightarrow> jvalue list \<Rightarrow> jvalue list" where
  "ds_collect_tables [] tables = tables"
| "ds_collect_tables (Inl err # rest) tables = ds_collect_tables rest tables"
| "ds_collect_tables (Inr out # rest) tables = ds_collect_tables rest (tables @ [tableInfo out])"

definition tables_sql :: string where
  "tables_sql =
     ''SELECT name, engine, total_rows, total_bytes FROM system.tables WHERE database = ?''"

definition ds_tables :: "ds_env \<Rightarrow> bytes \<Rightarrow> message \<times> ds_call list" where
  "ds_tables p b =
     (let req = fst (ds_Unmarshal_tables p b tablesReq_zero);
          db = (if tablesReq_Database req = [] then ds_database p else tablesReq_Database req) in
      (case ds_Query p tables_sql [JStr db] of
         Inl err \<Rightarrow> respond StatusBadGateway (error_body err)
       | Inr rows \<Rightarrow>
           respond StatusOK
             (JObj [(''database'', JStr db),
                    (''tables'', slice_value (ds_collect_tables (ds_scans rows) []))]),
       [DsQuery tables_sql [JStr db]]))"

text \<open>\<open>%d\<close> of \<open>fmt.Sprintf\<close> on a number that is not negative.\<close>

fun decimal :: "nat \<Rightarrow> string" where
  "decimal n =
     (if n < 10 then [char_of (48 + n)] else decimal (n div 10) @ [char_of (48 + n mod 10)])"

definition ds_health :: "ds_env \<Rightarrow> message \<times> ds_call list" where
  "ds_health p =
     (case ds_Ping p of
        Some err \<Rightarrow> (respond StatusServiceUnavailable (error_body err), [DsPing])
      | None \<Rightarrow>
          (let ver = (case ds_ServerVersion p of
                        None \<Rightarrow> []
                      | Some (major, minor, patch) \<Rightarrow>
                          decimal major @ ''.'' @ decimal minor @ ''.'' @ decimal patch) in
           (respond StatusOK
              (JObj [(''status'', JStr ''ok''), (''service'', JStr ''hanzo-datastore''),
                     (''native'', JBool True), (''version'', JStr ver)]),
            [DsPing, DsServerVersion])))"

definition ds_routes :: "string list" where
  "ds_routes = [''/health'', ''/query'', ''/exec'', ''/insert'', ''/tables'']"

definition ds_handle :: "ds_env \<Rightarrow> string \<Rightarrow> bytes \<Rightarrow> message \<times> ds_call list" where
  "ds_handle p path b =
     (if path = ''/health'' then ds_health p
      else if path = ''/query'' then ds_query p b
      else if path = ''/exec'' then ds_exec p b
      else if path = ''/insert'' then ds_insert p b
      else if path = ''/tables'' then ds_tables p b
      else if length b > 0 then ds_query p b
      else (respond StatusNotFound (error_body (''unknown: '' @ path)), []))"

text \<open>
  A columnar store for the examples. Its decoder knows four insert bodies: the one of
  the specification, a body with an empty \<open>rows\<close> list, a body whose second row lacks
  the key \<open>id\<close> and carries the extra key \<open>x\<close>, and a body whose second row the store
  refuses to append. The store refuses to append the value \<open>"bad"\<close>. The runtime visits
  the keys \<open>id\<close>, \<open>ts\<close>, \<open>x\<close> of a map in this order. \<open>insert_req rs\<close> is what the
  decoder makes of the zero request for these bodies, with rows \<open>rs\<close>.
\<close>

definition insert_body_spec :: bytes where
  \<open>insert_body_spec = ''{"table":"events","rows":[{"id":1},{"id":2}]}''\<close>

definition insert_body_empty :: bytes where
  \<open>insert_body_empty = ''{"table":"events","rows":[]}''\<close>

definition insert_body_ragged :: bytes where
  \<open>insert_body_ragged = ''{"table":"events","rows":[{"id":1,"ts":7},{"ts":8,"x":true}]}''\<close>

definition insert_body_bad :: bytes where
  \<open>insert_body_bad = ''{"table":"events","rows":[{"id":1},{"id":"bad"},{"id":3}]}''\<close>

definition insert_req :: "row list \<Rightarrow> insertReq" where
  "insert_req rs = \<lparr>insertReq_Table = ''events'', insertReq_Database = [],
                     insertReq_Columns = [], insertReq_Rows = rs\<rparr>"

definition rows_spec :: "row list" where
  "rows_spec = [[''id'' \<mapsto> JNum 1], [''id'' \<mapsto> JNum 2]]"

definition rows_ragged :: "row list" where
  "rows_ragged = [[''id'' \<mapsto> JNum 1, ''ts'' \<mapsto> JNum 7], [''ts'' \<mapsto> JNum 8, ''x'' \<mapsto> JBool True]]"

definition rows_bad :: "row list" where
  "rows_bad = [[''id'' \<mapsto> JNum 1], [''id'' \<mapsto> JStr ''bad''], [''id'' \<mapsto> JNum 3]]"

definition ds_example_decode :: "bytes \<Rightarrow> insertReq \<Rightarrow> insertReq \<times> error option" where
  "ds_example_decode b req =
     (if b = insert_body_spec then
        (req\<lparr>insertReq_Table := ''events'', insertReq_Rows := rows_spec\<rparr>, None)
      else if b = insert_body_empty then
        (req\<lparr>insertReq_Table := ''events'', insertReq_Rows := []\<rparr>, None)
      else if b = insert_body_ragged then
        (req\<lparr>insertReq_Table := ''events'', insertReq_Rows := rows_ragged\<rparr>, None)
      else if b = insert_body_bad then
        (req\<lparr>insertReq_Table := ''events'', insertReq_Rows := rows_bad\<rparr>, None)
      else (req, Some ''invalid character''))"

definition ds_example :: ds_env where
  "ds_example = \<lparr>
     ds_database = ''default'',
     ds_Ping = None,
     ds_ServerVersion = Some (24, 3, 1),
     ds_Query = (\<lambda>q args. Inr \<lparr>ds_columns = [], ds_scans = [], ds_rows_err = None\<rparr>),
     ds_Exec = (\<lambda>q args. None),
     ds_PrepareBatch = (\<lambda>q. None),
     ds_Append = (\<lambda>batch vals.
        if JStr ''bad'' \<in> set vals then Some ''clickhouse: converting string to Int64''
        else None),
     ds_Send = (\<lambda>batch. None),
     ds_range = (\<lambda>m. filter (\<lambda>k. m k \<noteq> None) [''id'', ''ts'', ''x'']),
     ds_Unmarshal_query = (\<lambda>b req. (req, Some ''invalid character'')),
     ds_Unmarshal_exec = (\<lambda>b req. (req, Some ''invalid character'')),
     ds_Unmarshal_insert = ds_example_decode,
     ds_Unmarshal_tables = (\<lambda>b req. (req, Some ''invalid character''))\<rparr>"

section \<open>Columnar adapter, HTTP\<close>

record httpQuery =
  httpQuery_SQL :: string
  httpQuery_Database :: string
  httpQuery_Format :: string

record httpInsertReq =
  httpInsertReq_Table :: string
  httpInsertReq_Database :: string
  httpInsertReq_Rows :: "row list"

definition httpQuery_zero :: httpQuery where
  "httpQuery_zero = \<lparr>httpQuery_SQL = [], httpQuery_Database = [], httpQuery_Format = []\<rparr>"

definition httpInsertReq_zero :: httpInsertReq where
  "httpInsertReq_zero = \<lparr>httpInsertReq_Table = [], httpInsertReq_Database = [],
                          httpInsertReq_Rows = []\<rparr>"

record http_request =
  req_method :: string
  req_url :: string
  req_body :: bytes
  req_header :: "(string \<times> string) list"

text \<open>
  The adapter's fields and its collaborators. \<open>http_ParseURL url\<close> is the error, if any,
  with which \<open>http.NewRequest\<close> rejects \<open>url\<close>; \<open>http_Do\<close> answers a request with an error
  or with the status code and the body that \<open>io.ReadAll\<close> read; \<open>http_Get\<close> is the error
  of \<open>p.http.Get\<close>; \<open>http_Marshal_row\<close> is \<open>json.Marshal\<close> on a row.
\<close>

record http_env =
  http_addr :: string
  http_user :: string
  http_password :: string
  http_database :: string
  http_ParseURL :: "string \<Rightarrow> error option"
  http_Do :: "http_request \<Rightarrow> error + int \<times> bytes"
  http_Get :: "string \<Rightarrow> error option"
  http_Unmarshal_query :: "bytes \<Rightarrow> httpQuery \<Rightarrow> httpQuery \<times> error option"
  http_Unmarshal_insert :: "bytes \<Rightarrow> httpInsertReq \<Rightarrow> httpInsertReq \<times> error option"
  http_Marshal_row :: "row \<Rightarrow> bytes"

datatype http_call = HttpGet string | HttpDo http_request

text \<open>
  \<open>httpReq, _ := http.NewRequest(method, url, body)\<close>: the request, or \<open>nil\<close> when the URL
  is rejected; the error is dropped by the caller.
\<close>

definition NewRequest :: "http_env \<Rightarrow> string \<Rightarrow> string \<Rightarrow> bytes \<Rightarrow> http_request option" where
  "NewRequest p method url b =
     (case http_ParseURL p url of
        Some err \<Rightarrow> None
      | None \<Rightarrow> Some \<lparr>req_method = method, req_url = url, req_body = b, req_header = []\<rparr>)"

definition header_Set :: "http_request \<Rightarrow> string \<Rightarrow> string \<Rightarrow> http_request" where
  "header_Set r k v = r\<lparr>req_header := filter (\<lambda>(k', _). k' \<noteq> k) (req_header r) @ [(k, v)]\<rparr>"

text \<open>
  The two \<open>Header.Set\<close> statements that follow \<open>http.NewRequest\<close> in \<open>query\<close> and in
  \<open>insert\<close>. The first one reads \<open>httpReq.Header\<close>: on a \<open>nil\<close> request it panics.
\<close>

definition set_auth :: "http_env \<Rightarrow> http_request option \<Rightarrow> http_request option" where
  "set_auth p httpReq =
     (case httpReq of
        None \<Rightarrow> None
      | Some r \<Rightarrow>
          (let r1 = header_Set r ''X-ClickHouse-User'' (http_user p) in
           Some (if http_password p \<noteq> [] then header_Set r1 ''X-ClickHouse-Key'' (http_password p)
                 else r1)))"

definition http_query :: "http_env \<Rightarrow> bytes \<Rightarrow> reply \<times> http_call list" where
  "http_query p b =
     (let req0 = (case http_Unmarshal_query p b httpQuery_zero of
                    (req, Some err) \<Rightarrow> req\<lparr>httpQuery_SQL := b\<rparr>
                  | (req, None) \<Rightarrow> req);
          req1 = (if httpQuery_Database req0 = [] then req0\<lparr>httpQuery_Database := http_database p\<rparr>
                  else req0);
          req = (if httpQuery_Format req1 = [] then req1\<lparr>httpQuery_Format := ''JSONEachRow''\<rparr>
                 else req1);
          sql = httpQuery_SQL req @ '' FORMAT '' @ httpQuery_Format req;
          url = ''http://'' @ http_addr p @ ''/?database='' @ httpQuery_Database req in
      (case set_auth p (NewRequest p ''POST'' url sql) of
         None \<Rightarrow> (Panic, [])
       | Some httpReq \<Rightarrow>
           (case http_Do p httpReq of
              Inl err \<Rightarrow> Reply (respond StatusBadGateway (error_body err))
            | Inr (code, respBody) \<Rightarrow>
                if code \<noteq> StatusOK then Reply (respond code (error_body respBody))
                else Reply (respondRaw StatusOK respBody),
            [HttpDo httpReq])))"

definition http_insert :: "http_env \<Rightarrow> bytes \<Rightarrow> reply \<times> http_call list" where
  "http_insert p b =
     (case http_Unmarshal_insert p b httpInsertReq_zero of
        (req0, Some err) \<Rightarrow> (Reply (respond StatusBadRequest (error_body err)), [])
      | (req0, None) \<Rightarrow>
          (let req = (if httpInsertReq_Database req0 = []
                      then req0\<lparr>httpInsertReq_Database := http_database p\<rparr> else req0);
               buf = concat (map (\<lambda>r. http_Marshal_row p r @ [CHR 0x0A]) (httpInsertReq_Rows req));
               sql = ''INSERT INTO '' @ httpInsertReq_Table req @ '' FORMAT JSONEachRow'';
               url = ''http://'' @ http_addr p @ ''/?database='' @ httpInsertReq_Database req
                     @ ''&query='' @ sql in
           (case set_auth p (NewRequest p ''POST'' url buf) of
              None \<Rightarrow> (Panic, [])
            | Some httpReq \<Rightarrow>
                (case http_Do p httpReq of
                   Inl err \<Rightarrow> Reply (respond StatusBadGateway (error_body err))
                 | Inr (code, rb) \<Rightarrow>
                     if code \<noteq> StatusOK then Reply (respond code (error_body rb))
                     else Reply (respond StatusOK
                            (JObj [(''status'', JStr ''ok''),
                                   (''inserted'', JNum (int (length (httpInsertReq_Rows req))))])),
                 [HttpDo httpReq]))))"

definition http_health :: "http_env \<Rightarrow> reply \<times> http_call list" where
  "http_health p =
     (let url = ''http://'' @ http_addr p @ ''/ping'' in
      (case http_Get p url of
         Some err \<Rightarrow> Reply (respond StatusServiceUnavailable (error_body err))
       | None \<Rightarrow> Reply (respond StatusOK
                   (JObj [(''status'', JStr ''ok''), (''service'', JStr ''hanzo-datastore'')])),
       [HttpGet url]))"

definition http_routes :: "string list" where
  "http_routes = [''/health'', ''/query'', ''/insert'']"

definition http_handle :: "http_env \<Rightarrow> string \<Rightarrow> bytes \<Rightarrow> reply \<times> http_call list" where
  "http_handle p path b =
     (if path = ''/health'' then http_health p
      else if path = ''/query'' then http_query p b
      else if path = ''/insert'' then http_insert p b
      else if length b > 0 then http_query p b
      else (Reply (respond StatusNotFound (error_body (''unknown: '' @ path))), []))"

text \<open>
  For the examples: the first thing the URL parser of the Go library does is to reject a
  URL that holds an ASCII control character (a byte below \<open>0x20\<close>, or \<open>0x7f\<close>), with the
  error below. The decoder of the example knows the insert body of the specification and
  the query body \<open>http_ctl_body\<close>, whose \<open>database\<close> member is the JSON escape (backslash,
  \<open>u0001\<close>) of the control character with code 1.
\<close>

definition http_ctl_body :: bytes where
  \<open>http_ctl_body = ''{"sql":"SELECT 1","database":"'' @ [CHR 0x5C] @ ''u0001"}''\<close>

definition stringContainsCTLByte :: "string \<Rightarrow> bool" where
  "stringContainsCTLByte u = list_ex (\<lambda>c. (of_char c :: nat) < 32 \<or> (of_char c :: nat) = 127) u"

definition http_example :: http_env where
  \<open>http_example = \<lparr>
     http_addr = ''clickhouse:8123'',
     http_user = ''default'',
     http_password = [],
     http_database = ''default'',
     http_ParseURL = (\<lambda>u. if stringContainsCTLByte u
                            then Some ''net/url: invalid control character in URL'' else None),
     http_Do = (\<lambda>r. Inr (200, [])),
     http_Get = (\<lambda>u. None),
     http_Unmarshal_query = (\<lambda>b req.
        if b = http_ctl_body then
          (req\<lparr>httpQuery_SQL := ''SELECT 1'', httpQuery_Database := [CHR 0x01]\<rparr>, None)
        else (req, Some ''invalid character'')),
     http_Unmarshal_insert = (\<lambda>b req.
        if b = insert_body_spec then
          (req\<lparr>httpInsertReq_Table := ''events'', httpInsertReq_Rows := rows_spec\<rparr>, None)
        else (req, Some ''invalid character'')),
     http_Marshal_row = (\<lambda>r. case r ''id'' of
        Some (JNum n) \<Rightarrow> (if n = 1 then ''{"id":1}'' else ''{"id":2}'')
      | _ \<Rightarrow> ''{}'')\<rparr>\<close>

section \<open>Connection bootstrap: the constructors\<close>

text \<open>
  Every adapter file has a constructor \<open>New\<close> that connects to the backend, checks that
  it is alive, registers the handler and starts the node. The backend is given by
  \<open>probe\<close>: \<open>probe i\<close> is the error left in \<open>err\<close> by round \<open>i\<close> of the loop (counted from
  0, as the loop variable is), that is by opening the connection and pinging it, and
  \<open>None\<close> when both succeeded. \<open>start\<close> is the error of \<open>node.Start()\<close>. A constructor
  returns the proxy or an error; the events record each probe, each
  \<open>time.Sleep(2 * time.Second)\<close> and the call of \<open>node.Start()\<close>, in order. The defaults
  that the columnar constructors fill into the configuration, the log lines and the
  closing of a connection that failed its ping have no part in the control flow and are
  left out.
\<close>

datatype boot_event = Probe nat | Sleep nat | StartNode

datatype boot_result = BootError error | BootReady

text \<open>The part of every constructor that follows the connection loop.\<close>

definition start_node :: "string \<Rightarrow> error option \<Rightarrow> boot_event list
                           \<Rightarrow> boot_result \<times> boot_event list" where
  "start_node name start evs =
     (case start of
        Some err \<Rightarrow> (BootError (name @ '': node start failed: '' @ err), evs @ [StartNode])
      | None \<Rightarrow> (BootReady, evs @ [StartNode]))"

text \<open>
  Relational adapter: \<open>for i := 0; i < 30; i++\<close>; a round that succeeds leaves the loop
  with \<open>break\<close>, round 29 returns the error when it fails, every other failing round
  logs and sleeps.
\<close>

function sql_connect :: "(nat \<Rightarrow> error option) \<Rightarrow> nat \<Rightarrow> error option \<times> boot_event list" where
  "sql_connect probe i =
     (if i < 30 then
        (case probe i of
           None \<Rightarrow> (None, [Probe i])
         | Some err \<Rightarrow>
             if i = 29 then (Some (''sql: connect failed after retries: '' @ err), [Probe i])
             else (case sql_connect probe (i + 1) of
                     (res, evs) \<Rightarrow> (res, Probe i # Sleep 2 # evs)))
      else (None, []))"
  by pat_completeness auto
termination
  by (relation "measure (\<lambda>(probe, i). 30 - i)") auto

declare sql_connect.simps [simp del]

definition sql_New :: "(nat \<Rightarrow> error option) \<Rightarrow> error option \<Rightarrow> boot_result \<times> boot_event list" where
  "sql_New probe start =
     (case sql_connect probe 0 of
        (Some err, evs) \<Rightarrow> (BootError err, evs)
      | (None, evs) \<Rightarrow> start_node ''sql'' start evs)"

text \<open>Key-value adapter: the probe is \<open>client.Ping\<close>.\<close>

function kv_connect :: "(nat \<Rightarrow> error option) \<Rightarrow> nat \<Rightarrow> error option \<times> boot_event list" where
  "kv_connect probe i =
     (if i < 30 then
        (case probe i of
           None \<Rightarrow> (None, [Probe i])
         | Some err \<Rightarrow>
             if i = 29 then (Some (''kv: ping failed after retries: '' @ err), [Probe i])
             else (case kv_connect probe (i + 1) of
                     (res, evs) \<Rightarrow> (res, Probe i # Sleep 2 # evs)))
      else (None, []))"
  by pat_completeness auto
termination
  by (relation "measure (\<lambda>(probe, i). 30 - i)") auto

declare kv_connect.simps [simp del]

definition kv_New :: "(nat \<Rightarrow> error option) \<Rightarrow> error option \<Rightarrow> boot_result \<times> boot_event list" where
  "kv_New probe start =
     (case kv_connect probe 0 of
        (Some err, evs) \<Rightarrow> (BootError err, evs)
      | (None, evs) \<Rightarrow> start_node ''kv'' start evs)"

text \<open>Document adapter.\<close>

function doc_connect :: "(nat \<Rightarrow> error option) \<Rightarrow> nat \<Rightarrow> error option \<times> boot_event list" where
  "doc_connect probe i =
     (if i < 30 then
        (case probe i of
           None \<Rightarrow> (None, [Probe i])
         | Some err \<Rightarrow>
             if i = 29 then (Some (''documentdb: connect failed after retries: '' @ err), [Probe i])
             else (case doc_connect probe (i + 1) of
                     (res, evs) \<Rightarrow> (res, Probe i # Sleep 2 # evs)))
      else (None, []))"
  by pat_completeness auto
termination
  by (relation "measure (\<lambda>(probe, i). 30 - i)") auto

declare doc_connect.simps [simp del]

definition doc_New :: "(nat \<Rightarrow> error option) \<Rightarrow> error option \<Rightarrow> boot_result \<times> boot_event list" where
  "doc_New probe start =
     (case doc_connect probe 0 of
        (Some err, evs) \<Rightarrow> (BootError err, evs)
      | (None, evs) \<Rightarrow> start_node ''documentdb'' start evs)"

text \<open>
  Columnar adapter, native protocol: the loop has no exit for round 29; every failing
  round logs and sleeps, and the error is looked at after the loop. \<open>err\<close> is the value
  of the variable \<open>err\<close> on entry to the round.
\<close>

function ds_connect :: "(nat \<Rightarrow> error option) \<Rightarrow> nat \<Rightarrow> error option
                         \<Rightarrow> error option \<times> boot_event list" where
  "ds_connect probe i err =
     (if i < 30 then
        (case probe i of
           None \<Rightarrow> (None, [Probe i])
         | Some e \<Rightarrow>
             (case ds_connect probe (i + 1) (Some e) of
                (res, evs) \<Rightarrow> (res, Probe i # Sleep 2 # evs)))
      else (err, []))"
  by pat_completeness auto
termination
  by (relation "measure (\<lambda>(probe, i, err). 30 - i)") auto

declare ds_connect.simps [simp del]

definition ds_New :: "(nat \<Rightarrow> error option) \<Rightarrow> error option \<Rightarrow> boot_result \<times> boot_event list" where
  "ds_New probe start =
     (case ds_connect probe 0 None of
        (Some err, evs) \<Rightarrow> (BootError (''datastore: connect failed after 30 retries: '' @ err), evs)
      | (None, evs) \<Rightarrow> start_node ''datastore'' start evs)"

text \<open>Columnar adapter, HTTP: one \<open>GET /ping\<close>, no loop.\<close>

definition http_New :: "(nat \<Rightarrow> error option) \<Rightarrow> error option \<Rightarrow> boot_result \<times> boot_event list" where
  "http_New probe start =
     (case probe 0 of
        Some err \<Rightarrow> (BootError (''datastore: ping failed: '' @ err), [Probe 0])
      | None \<Rightarrow> start_node ''datastore'' start [Probe 0])"

text \<open>
  The schedule the retry loop follows when round \<open>i\<close> is the first that succeeds: a
  probe and a sleep of two seconds for each of the rounds before, then the last probe.
\<close>

definition retry_schedule :: "nat \<Rightarrow> boot_event list" where
  "retry_schedule i = concat (map (\<lambda>j. [Probe j, Sleep 2]) [0..<i]) @ [Probe i]"

fun is_Probe :: "boot_event \<Rightarrow> bool" where
  "is_Probe (Probe i) = True"
| "is_Probe _ = False"

definition probes :: "boot_event list \<Rightarrow> nat" where
  "probes evs = length (filter is_Probe evs)"

text \<open>A backend that comes up at round \<open>n\<close>, and one that never does.\<close>

definition up_from :: "nat \<Rightarrow> nat \<Rightarrow> error option" where
  "up_from n j = (if j < n then Some ''connection refused'' else None)"

definition never_up :: "nat \<Rightarrow> error option" where
  "never_up j = Some ''connection refused''"

text \<open>
  The contract of the relational driver that \<open>query\<close> relies on: \<open>rows.Values()\<close> yields
  at least one value for each field description.
\<close>

definition sql_driver_ok :: "sql_env \<Rightarrow> bool" where
  "sql_driver_ok p \<longleftrightarrow>
     (\<forall>q args rows vals. sql_Query p q args = Inr rows \<longrightarrow> Inr vals \<in> set (sql_values rows)
         \<longrightarrow> length (sql_descs rows) \<le> length vals)"

section \<open>Properties\<close>

lemmas http_status_defs =
  StatusOK_def StatusBadRequest_def StatusNotFound_def StatusInternalServerError_def
  StatusBadGateway_def StatusServiceUnavailable_def

subsection \<open>Key-value adapter\<close>

text \<open>
  C3. A \<open>get\<close> whose key the client reports as not found (\<open>kv.Nil\<close>) is answered with
  status 200 and the body \<open>{"value": null}\<close>; and whenever \<open>get\<close> answers with a status
  other than 200, the status is 500 and the client reported an error that is not
  \<open>kv.Nil\<close>, for the key that was looked up.
\<close>

theorem kv_get_missing_key_is_200_null:
  assumes "snd (kv_get p b) = [KvGet k]"
  shows "(kv_Get p k = GetNil \<longrightarrow>
            fst (kv_get p b) =
              \<lparr>status = 200, body = Marshal (JObj [(''value'', JNil)]), headers = json_headers\<rparr>)
       \<and> (status (fst (kv_get p b)) \<noteq> 200 \<longrightarrow>
            status (fst (kv_get p b)) = 500 \<and> (\<exists>err. kv_Get p k = GetErr err))"
  using assms
  by (auto simp: kv_get_def Let_def respond_def http_status_defs
           split: prod.splits option.splits get_result.splits)

theorem kv_get_missing_key_is_200_null_witness:
  \<open>snd (kv_get kv_example ''{"key":"foo"}'') = [KvGet ''foo'']
   \<and> kv_Get kv_example ''foo'' = GetNil
   \<and> fst (kv_get kv_example ''{"key":"foo"}'') =
        \<lparr>status = 200, body = Marshal (JObj [(''value'', JNil)]), headers = json_headers\<rparr>
   \<and> snd (kv_get kv_example ''{"key":"down"}'') = [KvGet ''down'']
   \<and> status (fst (kv_get kv_example ''{"key":"down"}'')) \<noteq> 200
   \<and> status (fst (kv_get kv_example ''{"key":"down"}'')) = 500
   \<and> (\<exists>err. kv_Get kv_example ''down'' = GetErr err)\<close>
proof -
  have t1: \<open>snd (kv_get kv_example ''{"key":"foo"}'') = [KvGet ''foo'']\<close>
    by (simp add: kv_get_def kv_example_def kvGetReq_zero_def)
  have n1: \<open>kv_Get kv_example ''foo'' = GetNil\<close>
    by (simp add: kv_example_def)
  have t2: \<open>snd (kv_get kv_example ''{"key":"down"}'') = [KvGet ''down'']\<close>
    by (simp add: kv_get_def kv_example_def kvGetReq_zero_def)
  have s2: \<open>status (fst (kv_get kv_example ''{"key":"down"}'')) \<noteq> 200\<close>
    by (simp add: kv_get_def kv_example_def kvGetReq_zero_def respond_def http_status_defs)
  from kv_get_missing_key_is_200_null [OF t1] kv_get_missing_key_is_200_null [OF t2] t1 n1 t2 s2
  show ?thesis by simp
qed

text \<open>
  C10. When the body of a \<open>get\<close> request does not decode, the whole body is the key that
  is looked up (the one call made on the client is \<open>Get body\<close>), and the answer carries
  status 200 or 500: never 400.
\<close>

theorem kv_get_raw_key_fallback:
  assumes "snd (kv_Unmarshal_get p b kvGetReq_zero) = Some err"
  shows "snd (kv_get p b) = [KvGet b]
       \<and> status (fst (kv_get p b)) \<in> {200, 500}
       \<and> status (fst (kv_get p b)) \<noteq> 400"
  using assms
  by (auto simp: kv_get_def Let_def respond_def http_status_defs
           split: prod.splits option.splits get_result.splits)

theorem kv_get_raw_key_fallback_witness:
  \<open>snd (kv_Unmarshal_get kv_example ''foo'' kvGetReq_zero) = Some ''invalid character''
   \<and> snd (kv_get kv_example ''foo'') = [KvGet ''foo'']
   \<and> status (fst (kv_get kv_example ''foo'')) \<in> {200, 500}
   \<and> status (fst (kv_get kv_example ''foo'')) \<noteq> 400\<close>
proof -
  have h: \<open>snd (kv_Unmarshal_get kv_example ''foo'' kvGetReq_zero) = Some ''invalid character''\<close>
    by (simp add: kv_example_def)
  from kv_get_raw_key_fallback [OF h] h show ?thesis by simp
qed

subsection \<open>Connection bootstrap\<close>

lemma schedule_from_step:
  "a < i \<Longrightarrow> concat (map (\<lambda>j. [Probe j, Sleep 2]) [a..<i]) @ [Probe i]
      = Probe a # Sleep 2 # (concat (map (\<lambda>j. [Probe j, Sleep 2]) [Suc a..<i]) @ [Probe i])"
  by (simp add: upt_conv_Cons)

lemma sql_connect_up:
  assumes "a \<le> i" "i < 30" "\<forall>j. a \<le> j \<and> j < i \<longrightarrow> probe j \<noteq> None" "probe i = None"
  shows "sql_connect probe a = (None, concat (map (\<lambda>j. [Probe j, Sleep 2]) [a..<i]) @ [Probe i])"
  using assms
proof (induction "i - a" arbitrary: a)
  case 0
  then have "a = i" by simp
  with 0 show ?case by (subst sql_connect.simps) simp
next
  case (Suc n)
  then have lt: "a < i" by simp
  with Suc.prems obtain e where e: "probe a = Some e" by auto
  have ih: "sql_connect probe (Suc a)
      = (None, concat (map (\<lambda>j. [Probe j, Sleep 2]) [Suc a..<i]) @ [Probe i])"
    using Suc.hyps(1) [of "Suc a"] Suc.hyps(2) Suc.prems lt by simp
  from lt Suc.prems(2) have ne: "a \<noteq> 29" "a < 30" by simp_all
  show ?case
    by (subst sql_connect.simps) (simp add: e ne ih schedule_from_step [OF lt])
qed

lemma sql_connect_down:
  assumes "a < 30" "\<forall>j. a \<le> j \<and> j < 30 \<longrightarrow> probe j \<noteq> None"
  shows "\<exists>e. sql_connect probe a = (Some e, concat (map (\<lambda>j. [Probe j, Sleep 2]) [a..<29]) @ [Probe 29])"
  using assms
proof (induction "29 - a" arbitrary: a)
  case 0
  then have a: "a = 29" by simp
  with 0 obtain e where e: "probe 29 = Some e" by auto
  show ?case unfolding a by (subst sql_connect.simps) (simp add: e)
next
  case (Suc n)
  then have lt: "a < 29" by simp
  with Suc.prems obtain e where e: "probe a = Some e" by auto
  have n: "n = 29 - Suc a" using Suc.hyps(2) by simp
  have "\<exists>e. sql_connect probe (Suc a)
      = (Some e, concat (map (\<lambda>j. [Probe j, Sleep 2]) [Suc a..<29]) @ [Probe 29])"
    by (rule Suc.hyps(1) [OF n]) (use lt Suc.prems in auto)
  then obtain e' where ih: "sql_connect probe (Suc a)
      = (Some e', concat (map (\<lambda>j. [Probe j, Sleep 2]) [Suc a..<29]) @ [Probe 29])" ..
  from lt have ne: "a \<noteq> 29" "a < 30" by simp_all
  show ?case
    by (subst sql_connect.simps) (simp add: e ne ih schedule_from_step [OF lt])
qed

lemma ds_connect_up:
  assumes "a \<le> i" "i < 30" "\<forall>j. a \<le> j \<and> j < i \<longrightarrow> probe j \<noteq> None" "probe i = None"
  shows "ds_connect probe a err = (None, concat (map (\<lambda>j. [Probe j, Sleep 2]) [a..<i]) @ [Probe i])"
  using assms
proof (induction "i - a" arbitrary: a err)
  case 0
  then have "a = i" by simp
  with 0 show ?case by (subst ds_connect.simps) simp
next
  case (Suc n)
  then have lt: "a < i" by simp
  with Suc.prems obtain e where e: "probe a = Some e" by auto
  have ih: "ds_connect probe (Suc a) (Some e)
      = (None, concat (map (\<lambda>j. [Probe j, Sleep 2]) [Suc a..<i]) @ [Probe i])"
    using Suc.hyps(1) [of "Suc a"] Suc.hyps(2) Suc.prems lt by simp
  from lt Suc.prems(2) have ne: "a < 30" by simp
  show ?case
    by (subst ds_connect.simps) (simp add: e ne ih schedule_from_step [OF lt])
qed

lemma ds_connect_down:
  assumes "a \<le> 30" "\<forall>j. a \<le> j \<and> j < 30 \<longrightarrow> probe j \<noteq> None" "a = 30 \<longrightarrow> err \<noteq> None"
  shows "\<exists>e. ds_connect probe a err = (Some e, concat (map (\<lambda>j. [Probe j, Sleep 2]) [a..<30]))"
  using assms
proof (induction "30 - a" arbitrary: a err)
  case 0
  then have a: "a = 30" by simp
  with 0 obtain e where e: "err = Some e" by auto
  show ?case unfolding a by (subst ds_connect.simps) (simp add: e)
next
  case (Suc n)
  then have lt: "a < 30" by simp
  with Suc.prems obtain e where e: "probe a = Some e" by auto
  have n: "n = 30 - Suc a" using Suc.hyps(2) by simp
  have "\<exists>e'. ds_connect probe (Suc a) (Some e)
      = (Some e', concat (map (\<lambda>j. [Probe j, Sleep 2]) [Suc a..<30]))"
    by (rule Suc.hyps(1) [OF n]) (use lt Suc.prems in auto)
  then obtain e' where ih: "ds_connect probe (Suc a) (Some e)
      = (Some e', concat (map (\<lambda>j. [Probe j, Sleep 2]) [Suc a..<30]))" ..
  show ?case
    by (subst ds_connect.simps) (simp add: e lt ih upt_conv_Cons)
qed

lemma probes_schedule: "probes (concat (map (\<lambda>j. [Probe j, Sleep 2]) [a..<i]) @ evs) = (i - a) + probes evs"
  unfolding probes_def
  by (induction "i - a" arbitrary: a) (simp_all add: upt_conv_Cons)

lemma kv_connect_up:
  assumes "a \<le> i" "i < 30" "\<forall>j. a \<le> j \<and> j < i \<longrightarrow> probe j \<noteq> None" "probe i = None"
  shows "kv_connect probe a = (None, concat (map (\<lambda>j. [Probe j, Sleep 2]) [a..<i]) @ [Probe i])"
  using assms
proof (induction "i - a" arbitrary: a)
  case 0
  then have "a = i" by simp
  with 0 show ?case by (subst kv_connect.simps) simp
next
  case (Suc n)
  then have lt: "a < i" by simp
  with Suc.prems obtain e where e: "probe a = Some e" by auto
  have ih: "kv_connect probe (Suc a)
      = (None, concat (map (\<lambda>j. [Probe j, Sleep 2]) [Suc a..<i]) @ [Probe i])"
    using Suc.hyps(1) [of "Suc a"] Suc.hyps(2) Suc.prems lt by simp
  from lt Suc.prems(2) have ne: "a \<noteq> 29" "a < 30" by simp_all
  show ?case
    by (subst kv_connect.simps) (simp add: e ne ih schedule_from_step [OF lt])
qed

lemma kv_connect_down:
  assumes "a < 30" "\<forall>j. a \<le> j \<and> j < 30 \<longrightarrow> probe j \<noteq> None"
  shows "\<exists>e. kv_connect probe a = (Some e, concat (map (\<lambda>j. [Probe j, Sleep 2]) [a..<29]) @ [Probe 29])"
  using assms
proof (induction "29 - a" arbitrary: a)
  case 0
  then have a: "a = 29" by simp
  with 0 obtain e where e: "probe 29 = Some e" by auto
  show ?case unfolding a by (subst kv_connect.simps) (simp add: e)
next
  case (Suc n)
  then have lt: "a < 29" by simp
  with Suc.prems obtain e where e: "probe a = Some e" by auto
  have n: "n = 29 - Suc a" using Suc.hyps(2) by simp
  have "\<exists>e. kv_connect probe (Suc a)
      = (Some e, concat (map (\<lambda>j. [Probe j, Sleep 2]) [Suc a..<29]) @ [Probe 29])"
    by (rule Suc.hyps(1) [OF n]) (use lt Suc.prems in auto)
  then obtain e' where ih: "kv_connect probe (Suc a)
      = (Some e', concat (map (\<lambda>j. [Probe j, Sleep 2]) [Suc a..<29]) @ [Probe 29])" ..
  from lt have ne: "a \<noteq> 29" "a < 30" by simp_all
  show ?case
    by (subst kv_connect.simps) (simp add: e ne ih schedule_from_step [OF lt])
qed

lemma doc_connect_up:
  assumes "a \<le> i" "i < 30" "\<forall>j. a \<le> j \<and> j < i \<longrightarrow> probe j \<noteq> None" "probe i = None"
  shows "doc_connect probe a = (None, concat (map (\<lambda>j. [Probe j, Sleep 2]) [a..<i]) @ [Probe i])"
  using assms
proof (induction "i - a" arbitrary: a)
  case 0
  then have "a = i" by simp
  with 0 show ?case by (subst doc_connect.simps) simp
next
  case (Suc n)
  then have lt: "a < i" by simp
  with Suc.prems obtain e where e: "probe a = Some e" by auto
  have ih: "doc_connect probe (Suc a)
      = (None, concat (map (\<lambda>j. [Probe j, Sleep 2]) [Suc a..<i]) @ [Probe i])"
    using Suc.hyps(1) [of "Suc a"] Suc.hyps(2) Suc.prems lt by simp
  from lt Suc.prems(2) have ne: "a \<noteq> 29" "a < 30" by simp_all
  show ?case
    by (subst doc_connect.simps) (simp add: e ne ih schedule_from_step [OF lt])
qed

lemma doc_connect_down:
  assumes "a < 30" "\<forall>j. a \<le> j \<and> j < 30 \<longrightarrow> probe j \<noteq> None"
  shows "\<exists>e. doc_connect probe a = (Some e, concat (map (\<lambda>j. [Probe j, Sleep 2]) [a..<29]) @ [Probe 29])"
  using assms
proof (induction "29 - a" arbitrary: a)
  case 0
  then have a: "a = 29" by simp
  with 0 obtain e where e: "probe 29 = Some e" by auto
  show ?case unfolding a by (subst doc_connect.simps) (simp add: e)
next
  case (Suc n)
  then have lt: "a < 29" by simp
  with Suc.prems obtain e where e: "probe a = Some e" by auto
  have n: "n = 29 - Suc a" using Suc.hyps(2) by simp
  have "\<exists>e. doc_connect probe (Suc a)
      = (Some e, concat (map (\<lambda>j. [Probe j, Sleep 2]) [Suc a..<29]) @ [Probe 29])"
    by (rule Suc.hyps(1) [OF n]) (use lt Suc.prems in auto)
  then obtain e' where ih: "doc_connect probe (Suc a)
      = (Some e', concat (map (\<lambda>j. [Probe j, Sleep 2]) [Suc a..<29]) @ [Probe 29])" ..
  from lt have ne: "a \<noteq> 29" "a < 30" by simp_all
  show ?case
    by (subst doc_connect.simps) (simp add: e ne ih schedule_from_step [OF lt])
qed

lemma probes_retry_schedule: "probes (retry_schedule i @ evs) = Suc i + probes evs"
  using probes_schedule [of 0 i "Probe i # evs"]
  by (simp add: retry_schedule_def probes_def)

lemma retry_schedule_no_start: "StartNode \<notin> set (retry_schedule i)"
  by (auto simp: retry_schedule_def)

lemma start_node_result:
  "snd (start_node name start evs) = evs @ [StartNode]"
  "fst (start_node name start evs) = BootReady \<longleftrightarrow> start = None"
  by (simp_all add: start_node_def split: option.splits)

lemma sql_New_up:
  assumes "i < 30" "\<forall>j<i. probe j \<noteq> None" "probe i = None"
  shows "sql_New probe start = start_node ''sql'' start (retry_schedule i)"
  using sql_connect_up [of 0 i probe] assms
  by (simp add: sql_New_def retry_schedule_def)

lemma kv_New_up:
  assumes "i < 30" "\<forall>j<i. probe j \<noteq> None" "probe i = None"
  shows "kv_New probe start = start_node ''kv'' start (retry_schedule i)"
  using kv_connect_up [of 0 i probe] assms
  by (simp add: kv_New_def retry_schedule_def)

lemma doc_New_up:
  assumes "i < 30" "\<forall>j<i. probe j \<noteq> None" "probe i = None"
  shows "doc_New probe start = start_node ''documentdb'' start (retry_schedule i)"
  using doc_connect_up [of 0 i probe] assms
  by (simp add: doc_New_def retry_schedule_def)

lemma ds_New_up:
  assumes "i < 30" "\<forall>j<i. probe j \<noteq> None" "probe i = None"
  shows "ds_New probe start = start_node ''datastore'' start (retry_schedule i)"
  using ds_connect_up [of 0 i probe None] assms
  by (simp add: ds_New_def retry_schedule_def)

lemma sql_New_down:
  assumes "\<forall>j<30. probe j \<noteq> None"
  shows "\<exists>e. sql_New probe start = (BootError e, retry_schedule 29)"
  using sql_connect_down [of 0 probe] assms
  by (auto simp: sql_New_def retry_schedule_def)

lemma kv_New_down:
  assumes "\<forall>j<30. probe j \<noteq> None"
  shows "\<exists>e. kv_New probe start = (BootError e, retry_schedule 29)"
  using kv_connect_down [of 0 probe] assms
  by (auto simp: kv_New_def retry_schedule_def)

lemma doc_New_down:
  assumes "\<forall>j<30. probe j \<noteq> None"
  shows "\<exists>e. doc_New probe start = (BootError e, retry_schedule 29)"
  using doc_connect_down [of 0 probe] assms
  by (auto simp: doc_New_def retry_schedule_def)

lemma ds_New_down:
  assumes "\<forall>j<30. probe j \<noteq> None"
  shows "\<exists>e. ds_New probe start = (BootError e, retry_schedule 29 @ [Sleep 2])"
proof -
  have "[0..<30] = [0..<29] @ [29]"
    using upt_Suc_append [of 0 29] by simp
  then have "concat (map (\<lambda>j. [Probe j, Sleep 2]) [0..<30]) = retry_schedule 29 @ [Sleep 2]"
    by (simp add: retry_schedule_def)
  with ds_connect_down [of 0 probe None] assms show ?thesis
    by (auto simp: ds_New_def)
qed

text \<open>
  C2, as amended. For the relational, key-value, document and native columnar
  constructors: when round \<open>i < 30\<close> is the first whose probe succeeds, the constructor
  has made exactly \<open>i + 1\<close> probes, has slept two seconds after each probe that failed,
  and goes on to start the node; it returns the proxy exactly when \<open>node.Start()\<close>
  succeeds. When all 30 probes fail, it returns an error after exactly 30 probes,
  without starting the node (the native columnar constructor sleeps once more after the
  last probe, the others do not). The HTTP columnar constructor probes exactly once
  whatever the backend does, and returns the proxy exactly when that probe and
  \<open>node.Start()\<close> succeed.
\<close>

theorem bootstrap_bounded_retry:
  "(\<forall>i<30. (\<forall>j<i. probe j \<noteq> None) \<and> probe i = None \<longrightarrow>
      (\<forall>New \<in> {sql_New, kv_New, doc_New, ds_New}.
          snd (New probe start) = retry_schedule i @ [StartNode]
        \<and> probes (snd (New probe start)) = i + 1
        \<and> (fst (New probe start) = BootReady \<longleftrightarrow> start = None)
        \<and> (fst (New probe start) \<noteq> BootReady \<longrightarrow> (\<exists>e. start = Some e))))
 \<and> ((\<forall>j<30. probe j \<noteq> None) \<longrightarrow>
      (\<forall>New \<in> {sql_New, kv_New, doc_New}. snd (New probe start) = retry_schedule 29)
      \<and> snd (ds_New probe start) = retry_schedule 29 @ [Sleep 2]
      \<and> (\<forall>New \<in> {sql_New, kv_New, doc_New, ds_New}.
            (\<exists>e. fst (New probe start) = BootError e)
          \<and> probes (snd (New probe start)) = 30
          \<and> StartNode \<notin> set (snd (New probe start))))
 \<and> probes (snd (http_New probe start)) = 1
 \<and> (fst (http_New probe start) = BootReady \<longleftrightarrow> probe 0 = None \<and> start = None)"
proof (intro conjI allI impI ballI)
  fix i New
  assume i: "i < 30" and up: "(\<forall>j<i. probe j \<noteq> None) \<and> probe i = None"
    and New: "New \<in> {sql_New, kv_New, doc_New, ds_New}"
  from i up obtain name where run: "New probe start = start_node name start (retry_schedule i)"
    using New sql_New_up [of i probe start] kv_New_up [of i probe start]
      doc_New_up [of i probe start] ds_New_up [of i probe start] by auto
  show "snd (New probe start) = retry_schedule i @ [StartNode]"
    by (simp add: run start_node_result)
  show "probes (snd (New probe start)) = i + 1"
    using probes_retry_schedule [of i "[StartNode]"]
    by (simp add: run start_node_result probes_def)
  show "fst (New probe start) = BootReady \<longleftrightarrow> start = None"
    by (simp add: run start_node_result)
  show "fst (New probe start) \<noteq> BootReady \<Longrightarrow> \<exists>e. start = Some e"
    by (simp add: run start_node_result)
next
  fix New
  assume down: "\<forall>j<30. probe j \<noteq> None" and New: "New \<in> {sql_New, kv_New, doc_New}"
  then show "snd (New probe start) = retry_schedule 29"
    using sql_New_down [of probe start] kv_New_down [of probe start] doc_New_down [of probe start]
    by auto
next
  assume down: "\<forall>j<30. probe j \<noteq> None"
  then show "snd (ds_New probe start) = retry_schedule 29 @ [Sleep 2]"
    using ds_New_down [of probe start] by auto
next
  fix New
  assume down: "\<forall>j<30. probe j \<noteq> None" and New: "New \<in> {sql_New, kv_New, doc_New, ds_New}"
  then obtain e evs where run: "New probe start = (BootError e, retry_schedule 29 @ evs)"
    and evs: "evs = [] \<or> evs = [Sleep 2]"
    using sql_New_down [of probe start] kv_New_down [of probe start] doc_New_down [of probe start]
      ds_New_down [of probe start] by fastforce
  show "\<exists>e. fst (New probe start) = BootError e"
    by (simp add: run)
  show "probes (snd (New probe start)) = 30"
    using evs probes_retry_schedule [of 29 evs] by (auto simp: run probes_def)
  show "StartNode \<notin> set (snd (New probe start))"
    using evs retry_schedule_no_start [of 29] by (auto simp: run)
next
  show "probes (snd (http_New probe start)) = 1"
    by (simp add: http_New_def start_node_def probes_def split: option.splits)
  show "fst (http_New probe start) = BootReady \<longleftrightarrow> probe 0 = None \<and> start = None"
    by (auto simp add: http_New_def start_node_def split: option.splits)
qed


theorem bootstrap_bounded_retry_witness:
  "(4::nat) < 30
   \<and> up_from 4 0 \<noteq> None \<and> up_from 4 1 \<noteq> None \<and> up_from 4 2 \<noteq> None
   \<and> up_from 4 3 \<noteq> None \<and> up_from 4 4 = None
   \<and> snd (sql_New (up_from 4) None) = retry_schedule 4 @ [StartNode]
   \<and> probes (snd (sql_New (up_from 4) None)) = 5
   \<and> fst (sql_New (up_from 4) None) = BootReady
   \<and> fst (sql_New (up_from 4) (Some ''listen: address already in use'')) \<noteq> BootReady
   \<and> never_up = (\<lambda>j. Some ''connection refused'')
   \<and> snd (sql_New never_up None) = retry_schedule 29
   \<and> snd (ds_New never_up None) = retry_schedule 29 @ [Sleep 2]
   \<and> (\<exists>e. fst (ds_New never_up None) = BootError e)
   \<and> probes (snd (ds_New never_up None)) = 30
   \<and> StartNode \<notin> set (snd (ds_New never_up None))"
proof -
  have lt: "(4::nat) < 30" by simp
  have h1: "(\<forall>j<4. up_from 4 j \<noteq> None) \<and> up_from 4 4 = None"
    by (simp add: up_from_def)
  have h2: "\<forall>j<30. never_up j \<noteq> None"
    by (simp add: never_up_def)
  have m1: "sql_New \<in> {sql_New, kv_New, doc_New, ds_New}" by simp
  have m2: "ds_New \<in> {sql_New, kv_New, doc_New, ds_New}" by simp
  have m3: "sql_New \<in> {sql_New, kv_New, doc_New}" by simp
  note up = bootstrap_bounded_retry [THEN conjunct1, rule_format, OF lt h1 m1]
  note down = bootstrap_bounded_retry [THEN conjunct2, THEN conjunct1, THEN mp, OF h2]
  have a: "snd (sql_New (up_from 4) None) = retry_schedule 4 @ [StartNode]"
    using up [of None] by blast
  have "probes (snd (sql_New (up_from 4) None)) = 4 + 1"
    using up [of None] by blast
  then have b: "probes (snd (sql_New (up_from 4) None)) = 5"
    by simp
  have c: "fst (sql_New (up_from 4) None) = BootReady"
    using up [of None] by blast
  have d: "fst (sql_New (up_from 4) (Some ''listen: address already in use'')) \<noteq> BootReady"
    using up [of "Some ''listen: address already in use''"] by blast
  have e: "snd (sql_New never_up None) = retry_schedule 29"
    using down [of None] m3 by blast
  have f: "snd (ds_New never_up None) = retry_schedule 29 @ [Sleep 2]"
    using down [of None] by blast
  have g: "(\<exists>e. fst (ds_New never_up None) = BootError e)
         \<and> probes (snd (ds_New never_up None)) = 30
         \<and> StartNode \<notin> set (snd (ds_New never_up None))"
    using down [of None] m2 by blast
  have u: "up_from 4 0 \<noteq> None \<and> up_from 4 1 \<noteq> None \<and> up_from 4 2 \<noteq> None
           \<and> up_from 4 3 \<noteq> None \<and> up_from 4 4 = None"
    by (simp add: up_from_def)
  have n: "never_up = (\<lambda>j. Some ''connection refused'')"
    by (rule ext) (simp add: never_up_def)
  from lt u a b c d n e f g show ?thesis by blast
qed

text \<open>
  The claim as stated fails for the HTTP columnar constructor: a backend that refuses
  the first probe and would accept the second gets no second probe. It also fails where
  the probe succeeds at once and \<open>node.Start()\<close> does not: no proxy is returned.
\<close>

theorem http_constructor_probes_once:
  "up_from 1 1 = None
   \<and> http_New (up_from 1) None = (BootError ''datastore: ping failed: connection refused'', [Probe 0])
   \<and> up_from 0 0 = None
   \<and> sql_New (up_from 0) (Some ''listen tcp :9651: bind: address already in use'')
        = (BootError ''sql: node start failed: listen tcp :9651: bind: address already in use'',
           [Probe 0, StartNode])"
  by (simp add: up_from_def http_New_def sql_New_def sql_connect.simps start_node_def)


subsection \<open>Routing\<close>

text \<open>
  C1, as amended. In the relational, key-value and both columnar adapters, a path that
  is none of the adapter's routes sends a body that is not empty to the default
  operation (\<open>query\<close>, or \<open>cmd\<close> for key-value), and an empty body is answered with
  status 404 and the error \<open>unknown: \<close> followed by the path, without a call on the
  backend. In the document adapter a path that is none of its routes is always answered
  with status 404 and the error \<open>unknown path: \<close> followed by the path, whatever the
  body.
\<close>

theorem unknown_path_fallback:
  "(path \<notin> set sql_routes \<longrightarrow>
      sql_handle sp path b =
        (if b \<noteq> [] then sql_query sp b
         else (Reply \<lparr>status = 404, body = Marshal (JObj [(''error'', JStr (''unknown: '' @ path))]),
                      headers = json_headers\<rparr>, [])))
 \<and> (path \<notin> set kv_routes \<longrightarrow>
      kv_handle kp path b =
        (if b \<noteq> [] then kv_cmd kp b
         else (\<lparr>status = 404, body = Marshal (JObj [(''error'', JStr (''unknown: '' @ path))]),
                headers = json_headers\<rparr>, [])))
 \<and> (path \<notin> set ds_routes \<longrightarrow>
      ds_handle dp path b =
        (if b \<noteq> [] then ds_query dp b
         else (\<lparr>status = 404, body = Marshal (JObj [(''error'', JStr (''unknown: '' @ path))]),
                headers = json_headers\<rparr>, [])))
 \<and> (path \<notin> set http_routes \<longrightarrow>
      http_handle hp path b =
        (if b \<noteq> [] then http_query hp b
         else (Reply \<lparr>status = 404, body = Marshal (JObj [(''error'', JStr (''unknown: '' @ path))]),
                      headers = json_headers\<rparr>, [])))
 \<and> (path \<notin> set doc_routes \<longrightarrow>
      doc_handle mp path b =
        (\<lparr>status = 404, body = Marshal (JObj [(''error'', JStr (''unknown path: '' @ path))]),
          headers = json_headers\<rparr>, []))"
  by (simp add: sql_handle_def kv_handle_def ds_handle_def http_handle_def doc_handle_def
        sql_routes_def kv_routes_def ds_routes_def http_routes_def doc_routes_def
        respond_def error_body_def StatusNotFound_def)

theorem unknown_path_fallback_witness:
  "''/nope'' \<notin> set sql_routes \<and> ''/nope'' \<notin> set kv_routes \<and> ''/nope'' \<notin> set ds_routes
   \<and> ''/nope'' \<notin> set http_routes \<and> ''/nope'' \<notin> set doc_routes
   \<and> sql_handle sql_example ''/nope'' ''SELECT 1'' = sql_query sql_example ''SELECT 1''
   \<and> kv_handle kv_example ''/nope'' ''PING'' = kv_cmd kv_example ''PING''
   \<and> ds_handle ds_example ''/nope'' ''SELECT 1'' = ds_query ds_example ''SELECT 1''
   \<and> http_handle http_example ''/nope'' ''SELECT 1'' = http_query http_example ''SELECT 1''
   \<and> kv_handle kv_example ''/nope'' [] =
        (\<lparr>status = 404, body = Marshal (JObj [(''error'', JStr ''unknown: /nope'')]),
          headers = json_headers\<rparr>, [])
   \<and> doc_handle doc_example ''/nope'' [] =
        (\<lparr>status = 404, body = Marshal (JObj [(''error'', JStr ''unknown path: /nope'')]),
          headers = json_headers\<rparr>, [])"
proof -
  have r: "''/nope'' \<notin> set sql_routes" "''/nope'' \<notin> set kv_routes" "''/nope'' \<notin> set ds_routes"
    "''/nope'' \<notin> set http_routes" "''/nope'' \<notin> set doc_routes"
    by (simp_all add: sql_routes_def kv_routes_def ds_routes_def http_routes_def doc_routes_def)
  note t = unknown_path_fallback [of "''/nope''"]
  note t1 = t [of sql_example "''SELECT 1''" kv_example ds_example http_example doc_example]
  note t2 = t [of sql_example "''PING''" kv_example ds_example http_example doc_example]
  note t3 = t [of sql_example "[]" kv_example ds_example http_example doc_example]
  from r t1 t2 t3 show ?thesis by simp
qed

text \<open>
  The claim as stated fails for the document adapter: on an unknown path it answers 404
  to a body that is not empty too, and calls nothing on the backend.
\<close>

theorem document_adapter_has_no_fallback:
  "''/nope'' \<notin> set doc_routes \<and> ''{}'' \<noteq> []
   \<and> doc_handle doc_example ''/nope'' ''{}'' =
        (\<lparr>status = 404, body = Marshal (JObj [(''error'', JStr ''unknown path: /nope'')]),
          headers = json_headers\<rparr>, [])"
  by (simp add: doc_handle_def doc_routes_def respond_def error_body_def StatusNotFound_def)

subsection \<open>Bulk insert\<close>

lemma ds_append_rows_fst_Cons:
  "fst (ds_append_rows p cols (r # rest) batch) =
     (case ds_Append p batch (map (row_get r) cols) of
        Some err \<Rightarrow> Inl err
      | None \<Rightarrow> fst (ds_append_rows p cols rest (batch @ [map (row_get r) cols])))"
  by (simp add: Let_def split: option.splits prod.splits)

lemma ds_append_rows_snd_Cons:
  "snd (ds_append_rows p cols (r # rest) batch) =
     DsAppend (map (row_get r) cols) #
     (case ds_Append p batch (map (row_get r) cols) of
        Some err \<Rightarrow> []
      | None \<Rightarrow> snd (ds_append_rows p cols rest (batch @ [map (row_get r) cols])))"
  by (simp add: Let_def split: option.splits prod.splits)

lemmas ds_append_rows_Cons = ds_append_rows_fst_Cons ds_append_rows_snd_Cons

lemma ds_append_rows_ok:
  "fst (ds_append_rows p cols rows batch) = Inr bt \<Longrightarrow>
     bt = batch @ map (\<lambda>r. map (row_get r) cols) rows
   \<and> snd (ds_append_rows p cols rows batch) = map (\<lambda>r. DsAppend (map (row_get r) cols)) rows
   \<and> (\<forall>i<length rows. ds_Append p (batch @ map (\<lambda>r. map (row_get r) cols) (take i rows))
                            (map (row_get (rows ! i)) cols) = None)"
proof (induction rows arbitrary: batch)
  case Nil
  then show ?case by simp
next
  case (Cons r rows)
  let ?v = "map (row_get r) cols"
  from Cons.prems have a: "ds_Append p batch ?v = None"
    by (simp add: ds_append_rows_fst_Cons del: ds_append_rows.simps split: option.splits)
  with Cons.prems have "fst (ds_append_rows p cols rows (batch @ [?v])) = Inr bt"
    by (simp add: ds_append_rows_fst_Cons del: ds_append_rows.simps)
  from Cons.IH [OF this] have ih:
    "bt = (batch @ [?v]) @ map (\<lambda>r. map (row_get r) cols) rows"
    "snd (ds_append_rows p cols rows (batch @ [?v])) = map (\<lambda>r. DsAppend (map (row_get r) cols)) rows"
    "\<And>i. i < length rows \<Longrightarrow>
        ds_Append p ((batch @ [?v]) @ map (\<lambda>r. map (row_get r) cols) (take i rows))
                            (map (row_get (rows ! i)) cols) = None"
    by blast+
  have "ds_Append p (batch @ map (\<lambda>r. map (row_get r) cols) (take i (r # rows)))
                            (map (row_get ((r # rows) ! i)) cols) = None"
    if "i < length (r # rows)" for i
    using that a ih(3) by (cases i) simp_all
  with ih(1,2) a show ?case
    by (simp add: ds_append_rows_snd_Cons del: ds_append_rows.simps)
qed

lemma ds_append_rows_err:
  "fst (ds_append_rows p cols rows batch) = Inl err \<Longrightarrow>
     \<exists>i<length rows.
        ds_Append p (batch @ map (\<lambda>r. map (row_get r) cols) (take i rows))
                    (map (row_get (rows ! i)) cols) = Some err
      \<and> (\<forall>j<i. ds_Append p (batch @ map (\<lambda>r. map (row_get r) cols) (take j rows))
                            (map (row_get (rows ! j)) cols) = None)
      \<and> snd (ds_append_rows p cols rows batch)
           = map (\<lambda>r. DsAppend (map (row_get r) cols)) (take (Suc i) rows)"
proof (induction rows arbitrary: batch)
  case Nil
  then show ?case by simp
next
  case (Cons r rows)
  let ?v = "map (row_get r) cols"
  show ?case
  proof (cases "ds_Append p batch ?v")
    case (Some e)
    with Cons.prems have "e = err"
      by (simp add: ds_append_rows_fst_Cons del: ds_append_rows.simps)
    with Some show ?thesis
      by (intro exI [of _ 0]) (simp add: ds_append_rows_snd_Cons del: ds_append_rows.simps)
  next
    case None
    with Cons.prems have "fst (ds_append_rows p cols rows (batch @ [?v])) = Inl err"
      by (simp add: ds_append_rows_fst_Cons del: ds_append_rows.simps)
    from Cons.IH [OF this] obtain i where i: "i < length rows"
      "ds_Append p ((batch @ [?v]) @ map (\<lambda>r. map (row_get r) cols) (take i rows))
                    (map (row_get (rows ! i)) cols) = Some err"
      "\<forall>j<i. ds_Append p ((batch @ [?v]) @ map (\<lambda>r. map (row_get r) cols) (take j rows))
                            (map (row_get (rows ! j)) cols) = None"
      "snd (ds_append_rows p cols rows (batch @ [?v]))
           = map (\<lambda>r. DsAppend (map (row_get r) cols)) (take (Suc i) rows)"
      by blast
    show ?thesis
    proof (intro exI [of _ "Suc i"] conjI allI impI)
      show "Suc i < length (r # rows)" using i(1) by simp
      show "ds_Append p (batch @ map (\<lambda>r. map (row_get r) cols) (take (Suc i) (r # rows)))
             (map (row_get ((r # rows) ! Suc i)) cols) = Some err"
        using i(2) by simp
      show "snd (ds_append_rows p cols (r # rows) batch) =
              map (\<lambda>r. DsAppend (map (row_get r) cols)) (take (Suc (Suc i)) (r # rows))"
        using i(4) None by (simp add: ds_append_rows_snd_Cons del: ds_append_rows.simps)
    next
      fix j assume "j < Suc i"
      then show "ds_Append p (batch @ map (\<lambda>r. map (row_get r) cols) (take j (r # rows)))
             (map (row_get ((r # rows) ! j)) cols) = None"
        using i(3) None by (cases j) simp_all
    qed
  qed
qed

lemma ds_append_rows_first_failure:
  assumes "i < length rows"
    and "ds_Append p (batch @ map (\<lambda>r. map (row_get r) cols) (take i rows))
                    (map (row_get (rows ! i)) cols) \<noteq> None"
  shows "\<exists>err. fst (ds_append_rows p cols rows batch) = Inl err"
proof (cases "fst (ds_append_rows p cols rows batch)")
  case (Inl e)
  then show ?thesis by simp
next
  case (Inr bt)
  from ds_append_rows_ok [OF this]
  have "\<forall>i<length rows. ds_Append p (batch @ map (\<lambda>r. map (row_get r) cols) (take i rows))
                            (map (row_get (rows ! i)) cols) = None"
    by (rule conjunct2 [THEN conjunct2])
  with assms show ?thesis by simp
qed

lemma ds_append_rows_no_send: "DsSend \<notin> set (snd (ds_append_rows p cols rows batch))"
proof (induction rows arbitrary: batch)
  case Nil
  then show ?case by simp
next
  case (Cons r rows)
  then show ?case
    by (simp add: ds_append_rows_snd_Cons del: ds_append_rows.simps split: option.splits)
qed

lemma ds_insert_decoded:
  assumes "ds_Unmarshal_insert p b insertReq_zero = (req, None)"
    and "insertReq_Rows req \<noteq> []"
    and "ds_PrepareBatch p (ds_insert_sql p req) = None"
  shows "ds_insert p b =
     (case fst (ds_append_rows p (ds_insert_cols p req) (insertReq_Rows req) []) of
        Inl err \<Rightarrow>
          (respond StatusBadRequest (error_body (''row append: '' @ err)),
           DsPrepareBatch (ds_insert_sql p req)
             # snd (ds_append_rows p (ds_insert_cols p req) (insertReq_Rows req) []))
      | Inr batch \<Rightarrow>
          (case ds_Send p batch of
             Some err \<Rightarrow> respond StatusBadGateway (error_body err)
           | None \<Rightarrow>
               respond StatusOK
                 (JObj [(''status'', JStr ''ok''),
                        (''inserted'', JNum (int (length (insertReq_Rows req))))]),
           DsPrepareBatch (ds_insert_sql p req)
             # snd (ds_append_rows p (ds_insert_cols p req) (insertReq_Rows req) []) @ [DsSend]))"
  using assms
  by (simp add: ds_insert_def Let_def split: prod.splits sum.splits)

lemma ds_insert_sent:
  assumes "ds_Unmarshal_insert p b insertReq_zero = (req, None)"
    and "DsSend \<in> set (snd (ds_insert p b))"
  shows "insertReq_Rows req \<noteq> []"
    and "ds_PrepareBatch p (ds_insert_sql p req) = None"
    and "\<exists>bt. fst (ds_append_rows p (ds_insert_cols p req) (insertReq_Rows req) []) = Inr bt"
proof -
  show rows: "insertReq_Rows req \<noteq> []"
    using assms by (auto simp: ds_insert_def)
  show prep: "ds_PrepareBatch p (ds_insert_sql p req) = None"
    using assms rows by (auto simp: ds_insert_def Let_def split: option.splits)
  show "\<exists>bt. fst (ds_append_rows p (ds_insert_cols p req) (insertReq_Rows req) []) = Inr bt"
  proof (cases "fst (ds_append_rows p (ds_insert_cols p req) (insertReq_Rows req) [])")
    case (Inl err)
    with assms(2) ds_append_rows_no_send [of p "ds_insert_cols p req" "insertReq_Rows req" "[]"]
    show ?thesis
      by (simp add: ds_insert_decoded [OF assms(1) rows prep])
  next
    case (Inr bt)
    then show ?thesis by simp
  qed
qed

text \<open>
  C9. A native bulk insert whose body decodes to a request with an empty \<open>rows\<close> list is
  answered with status 400 and the error \<open>no rows\<close>, and makes no call on the driver: it
  is never answered with a success and \<open>inserted = 0\<close>.
\<close>

theorem ds_insert_no_rows:
  assumes "ds_Unmarshal_insert p b insertReq_zero = (req, None)"
    and "insertReq_Rows req = []"
  shows "ds_insert p b =
           (\<lparr>status = 400, body = Marshal (JObj [(''error'', JStr ''no rows'')]),
             headers = json_headers\<rparr>, [])"
  using assms
  by (simp add: ds_insert_def respond_def error_body_def StatusBadRequest_def)

text \<open>
  C4. In the native bulk insert, when the batch has been prepared and the append of some
  row \<open>i\<close> (to the batch that holds the rows before it) fails, the answer has status 400
  and an error that starts with \<open>row append: \<close>, and \<open>batch.Send()\<close> is not among the
  calls made.
\<close>

theorem ds_insert_append_failure_aborts:
  assumes "ds_Unmarshal_insert p b insertReq_zero = (req, None)"
    and "ds_PrepareBatch p (ds_insert_sql p req) = None"
    and "i < length (insertReq_Rows req)"
    and "ds_Append p (map (\<lambda>r. map (row_get r) (ds_insert_cols p req)) (take i (insertReq_Rows req)))
           (map (row_get (insertReq_Rows req ! i)) (ds_insert_cols p req)) \<noteq> None"
  shows "(\<exists>err. fst (ds_insert p b) =
            \<lparr>status = 400, body = Marshal (JObj [(''error'', JStr (''row append: '' @ err))]),
              headers = json_headers\<rparr>)
       \<and> DsSend \<notin> set (snd (ds_insert p b))"
proof -
  from assms(3) have rows: "insertReq_Rows req \<noteq> []" by auto
  from ds_append_rows_first_failure [of i "insertReq_Rows req" p "[]" "ds_insert_cols p req"] assms(3,4)
  obtain err where err: "fst (ds_append_rows p (ds_insert_cols p req) (insertReq_Rows req) []) = Inl err"
    by auto
  have run: "ds_insert p b =
     (respond StatusBadRequest (error_body (''row append: '' @ err)),
      DsPrepareBatch (ds_insert_sql p req)
        # snd (ds_append_rows p (ds_insert_cols p req) (insertReq_Rows req) []))"
    by (simp add: ds_insert_decoded [OF assms(1) rows assms(2)] err)
  have "fst (ds_insert p b) =
            \<lparr>status = 400, body = Marshal (JObj [(''error'', JStr (''row append: '' @ err))]),
              headers = json_headers\<rparr>"
    by (simp add: run respond_def error_body_def StatusBadRequest_def)
  moreover have "DsSend \<notin> set (snd (ds_insert p b))"
    using ds_append_rows_no_send [of p "ds_insert_cols p req" "insertReq_Rows req" "[]"]
    by (simp add: run)
  ultimately show ?thesis by blast
qed

lemma filter_is_Append_map [simp]:
  "filter is_Append (map (\<lambda>r. DsAppend (f r)) xs) = map (\<lambda>r. DsAppend (f r)) xs"
  by (induction xs) simp_all

lemma ds_append_rows_prefix:
  "\<exists>n\<le>length rows. snd (ds_append_rows p cols rows batch)
      = map (\<lambda>r. DsAppend (map (row_get r) cols)) (take n rows)"
proof (cases "fst (ds_append_rows p cols rows batch)")
  case (Inl err)
  from ds_append_rows_err [OF this] obtain i where "i < length rows"
    "snd (ds_append_rows p cols rows batch)
       = map (\<lambda>r. DsAppend (map (row_get r) cols)) (take (Suc i) rows)"
    by blast
  then show ?thesis by (intro exI [of _ "Suc i"]) simp
next
  case (Inr bt)
  from ds_append_rows_ok [OF this] show ?thesis
    by (intro exI [of _ "length rows"]) simp
qed

text \<open>
  C5. A columnar bulk insert that the backend accepts is answered with status 200 and
  the body \<open>{"status":"ok","inserted":N}\<close>, \<open>N\<close> the length of the request's \<open>rows\<close>. For
  the native adapter: the body decodes, the batch is sent and \<open>Send\<close> returns no error.
  For the HTTP adapter: the body decodes, the request is sent and answered with status
  200.
\<close>

theorem insert_success_reports_row_count:
  "(ds_Unmarshal_insert p b insertReq_zero = (req, None)
      \<and> DsSend \<in> set (snd (ds_insert p b))
      \<and> ds_Send p (map (\<lambda>r. map (row_get r) (ds_insert_cols p req)) (insertReq_Rows req)) = None
    \<longrightarrow> fst (ds_insert p b) =
          \<lparr>status = 200,
            body = Marshal (JObj [(''status'', JStr ''ok''),
                                  (''inserted'', JNum (int (length (insertReq_Rows req))))]),
            headers = json_headers\<rparr>)
 \<and> (http_Unmarshal_insert hp hb httpInsertReq_zero = (hreq, None)
      \<and> snd (http_insert hp hb) = [HttpDo r]
      \<and> http_Do hp r = Inr (200, rb)
    \<longrightarrow> fst (http_insert hp hb) =
          Reply \<lparr>status = 200,
                  body = Marshal (JObj [(''status'', JStr ''ok''),
                                        (''inserted'', JNum (int (length (httpInsertReq_Rows hreq))))]),
                  headers = json_headers\<rparr>)"
proof (intro conjI impI)
  assume h: "ds_Unmarshal_insert p b insertReq_zero = (req, None)
      \<and> DsSend \<in> set (snd (ds_insert p b))
      \<and> ds_Send p (map (\<lambda>r. map (row_get r) (ds_insert_cols p req)) (insertReq_Rows req)) = None"
  then have dec: "ds_Unmarshal_insert p b insertReq_zero = (req, None)"
    and sent: "DsSend \<in> set (snd (ds_insert p b))"
    and ok: "ds_Send p (map (\<lambda>r. map (row_get r) (ds_insert_cols p req)) (insertReq_Rows req)) = None"
    by simp_all
  note s = ds_insert_sent [OF dec sent]
  from s(3) obtain bt where bt: "fst (ds_append_rows p (ds_insert_cols p req) (insertReq_Rows req) []) = Inr bt"
    by blast
  from ds_append_rows_ok [OF bt]
  have "bt = map (\<lambda>r. map (row_get r) (ds_insert_cols p req)) (insertReq_Rows req)"
    by simp
  with ok have "ds_Send p bt = None" by simp
  then show "fst (ds_insert p b) =
          \<lparr>status = 200,
            body = Marshal (JObj [(''status'', JStr ''ok''),
                                  (''inserted'', JNum (int (length (insertReq_Rows req))))]),
            headers = json_headers\<rparr>"
    by (simp add: ds_insert_decoded [OF dec s(1) s(2)] bt respond_def StatusOK_def)
next
  assume h: "http_Unmarshal_insert hp hb httpInsertReq_zero = (hreq, None)
      \<and> snd (http_insert hp hb) = [HttpDo r]
      \<and> http_Do hp r = Inr (200, rb)"
  then show "fst (http_insert hp hb) =
          Reply \<lparr>status = 200,
                  body = Marshal (JObj [(''status'', JStr ''ok''),
                                        (''inserted'', JNum (int (length (httpInsertReq_Rows hreq))))]),
                  headers = json_headers\<rparr>"
    by (auto simp: http_insert_def Let_def respond_def StatusOK_def
             split: option.splits sum.splits prod.splits if_splits)
qed

text \<open>
  C6. In the native bulk insert of a request without a column list, with first row
  \<open>r0\<close>: the column list is what ranging over \<open>r0\<close> yields, so its members are exactly the
  keys of \<open>r0\<close> (Go's \<open>range\<close> visits every key of the map); the statement that is
  prepared lists these columns; the values appended are, for a prefix of the rows in
  order, and for all rows when the batch is sent, the lookups of these same columns in
  the row; a lookup gives \<open>nil\<close> for a column the row lacks, and a key of the row that is
  no column is never looked up, so every appended row has as many values as there are
  columns.
\<close>

theorem ds_insert_columns_from_first_row:
  assumes "ds_Unmarshal_insert p b insertReq_zero = (req, None)"
    and "insertReq_Columns req = []"
    and "insertReq_Rows req = r0 # rest"
    and "set (ds_range p r0) = dom r0"
  shows "ds_insert_cols p req = ds_range p r0
       \<and> set (ds_insert_cols p req) = dom r0
       \<and> (\<exists>table. ds_insert_sql p req
              = ''INSERT INTO '' @ table @ '' ('' @ join_cols (ds_range p r0) @ '')'')
       \<and> (\<exists>n\<le>length (r0 # rest).
             filter is_Append (snd (ds_insert p b))
               = map (\<lambda>r. DsAppend (map (row_get r) (ds_range p r0))) (take n (r0 # rest)))
       \<and> (DsSend \<in> set (snd (ds_insert p b)) \<longrightarrow>
             snd (ds_insert p b)
               = DsPrepareBatch (ds_insert_sql p req)
                 # map (\<lambda>r. DsAppend (map (row_get r) (ds_range p r0))) (r0 # rest) @ [DsSend])
       \<and> (\<forall>r. length (map (row_get r) (ds_range p r0)) = length (ds_range p r0)
              \<and> (\<forall>j<length (ds_range p r0).
                    map (row_get r) (ds_range p r0) ! j
                      = (case r (ds_range p r0 ! j) of None \<Rightarrow> JNil | Some v \<Rightarrow> v)))"
proof -
  have cols: "ds_insert_cols p req = ds_range p r0"
    using assms(2,3) by (simp add: ds_insert_cols_def)
  have rows: "insertReq_Rows req \<noteq> []" using assms(3) by simp
  have sql: "\<exists>table. ds_insert_sql p req
              = ''INSERT INTO '' @ table @ '' ('' @ join_cols (ds_range p r0) @ '')''"
    by (simp add: ds_insert_sql_def Let_def cols)
  have pre: "\<exists>n\<le>length (r0 # rest).
             filter is_Append (snd (ds_insert p b))
               = map (\<lambda>r. DsAppend (map (row_get r) (ds_range p r0))) (take n (r0 # rest))"
  proof (cases "ds_PrepareBatch p (ds_insert_sql p req)")
    case (Some err)
    then have "snd (ds_insert p b) = [DsPrepareBatch (ds_insert_sql p req)]"
      using assms(1) rows by (simp add: ds_insert_def Let_def)
    then show ?thesis by (intro exI [of _ 0]) simp
  next
    case None
    from ds_append_rows_prefix [of "insertReq_Rows req" p "ds_insert_cols p req" "[]"]
    obtain n where n: "n \<le> length (r0 # rest)"
      "snd (ds_append_rows p (ds_insert_cols p req) (insertReq_Rows req) [])
         = map (\<lambda>r. DsAppend (map (row_get r) (ds_range p r0))) (take n (r0 # rest))"
      using assms(3) cols by auto
    have "filter is_Append (snd (ds_insert p b))
            = map (\<lambda>r. DsAppend (map (row_get r) (ds_range p r0))) (take n (r0 # rest))"
      by (simp add: ds_insert_decoded [OF assms(1) rows None] n(2) split: sum.splits)
    with n(1) show ?thesis by blast
  qed
  have sent: "snd (ds_insert p b)
               = DsPrepareBatch (ds_insert_sql p req)
                 # map (\<lambda>r. DsAppend (map (row_get r) (ds_range p r0))) (r0 # rest) @ [DsSend]"
    if "DsSend \<in> set (snd (ds_insert p b))"
  proof -
    note s = ds_insert_sent [OF assms(1) that]
    from s(3) obtain bt where
      bt: "fst (ds_append_rows p (ds_insert_cols p req) (insertReq_Rows req) []) = Inr bt"
      by blast
    from ds_append_rows_ok [OF bt]
    have "snd (ds_append_rows p (ds_insert_cols p req) (insertReq_Rows req) [])
            = map (\<lambda>r. DsAppend (map (row_get r) (ds_range p r0))) (r0 # rest)"
      using assms(3) cols by simp
    then show ?thesis
      by (simp add: ds_insert_decoded [OF assms(1) s(1) s(2)] bt)
  qed
  have look: "\<forall>r. length (map (row_get r) (ds_range p r0)) = length (ds_range p r0)
              \<and> (\<forall>j<length (ds_range p r0).
                    map (row_get r) (ds_range p r0) ! j
                      = (case r (ds_range p r0 ! j) of None \<Rightarrow> JNil | Some v \<Rightarrow> v))"
    by (simp add: row_get_def)
  have keys: "set (ds_insert_cols p req) = dom r0"
    using cols assms(4) by simp
  show ?thesis
  proof (intro conjI impI)
    show "ds_insert_cols p req = ds_range p r0" by (fact cols)
    show "set (ds_insert_cols p req) = dom r0" by (fact keys)
    show "\<exists>table. ds_insert_sql p req
              = ''INSERT INTO '' @ table @ '' ('' @ join_cols (ds_range p r0) @ '')''"
      by (fact sql)
    show "\<exists>n\<le>length (r0 # rest).
             filter is_Append (snd (ds_insert p b))
               = map (\<lambda>r. DsAppend (map (row_get r) (ds_range p r0))) (take n (r0 # rest))"
      by (fact pre)
    show "snd (ds_insert p b)
               = DsPrepareBatch (ds_insert_sql p req)
                 # map (\<lambda>r. DsAppend (map (row_get r) (ds_range p r0))) (r0 # rest) @ [DsSend]"
      if "DsSend \<in> set (snd (ds_insert p b))"
      using that by (rule sent)
    show "\<forall>r. length (map (row_get r) (ds_range p r0)) = length (ds_range p r0)
              \<and> (\<forall>j<length (ds_range p r0).
                    map (row_get r) (ds_range p r0) ! j
                      = (case r (ds_range p r0 ! j) of None \<Rightarrow> JNil | Some v \<Rightarrow> v))"
      by (fact look)
  qed
qed


theorem ds_insert_no_rows_witness:
  "ds_Unmarshal_insert ds_example insert_body_empty insertReq_zero = (insert_req [], None)
   \<and> insertReq_Rows (insert_req []) = []
   \<and> ds_insert ds_example insert_body_empty =
        (\<lparr>status = 400, body = Marshal (JObj [(''error'', JStr ''no rows'')]),
          headers = json_headers\<rparr>, [])"
proof -
  have d: "ds_Unmarshal_insert ds_example insert_body_empty insertReq_zero = (insert_req [], None)"
    by (simp add: ds_example_def ds_example_decode_def insertReq_zero_def insert_req_def
          insert_body_empty_def insert_body_spec_def)
  have r: "insertReq_Rows (insert_req []) = []"
    by (simp add: insert_req_def)
  from ds_insert_no_rows [OF d r] d r show ?thesis by simp
qed

lemma ds_example_decode_bad:
  "ds_Unmarshal_insert ds_example insert_body_bad insertReq_zero = (insert_req rows_bad, None)"
  by (simp add: ds_example_def ds_example_decode_def insertReq_zero_def insert_req_def
        insert_body_empty_def insert_body_spec_def insert_body_ragged_def insert_body_bad_def)

lemma ds_example_decode_spec:
  "ds_Unmarshal_insert ds_example insert_body_spec insertReq_zero = (insert_req rows_spec, None)"
  by (simp add: ds_example_def ds_example_decode_def insertReq_zero_def insert_req_def)

lemma ds_example_decode_ragged:
  "ds_Unmarshal_insert ds_example insert_body_ragged insertReq_zero = (insert_req rows_ragged, None)"
  by (simp add: ds_example_def ds_example_decode_def insertReq_zero_def insert_req_def
        insert_body_empty_def insert_body_spec_def insert_body_ragged_def)

lemma ds_example_cols_bad: "ds_insert_cols ds_example (insert_req rows_bad) = [''id'']"
  by (simp add: ds_insert_cols_def insert_req_def rows_bad_def ds_example_def)

lemma ds_example_cols_spec: "ds_insert_cols ds_example (insert_req rows_spec) = [''id'']"
  by (simp add: ds_insert_cols_def insert_req_def rows_spec_def ds_example_def)

lemma ds_example_prepare: "ds_PrepareBatch ds_example q = None"
  by (simp add: ds_example_def)

theorem ds_insert_append_failure_aborts_witness:
  "ds_Unmarshal_insert ds_example insert_body_bad insertReq_zero = (insert_req rows_bad, None)
   \<and> ds_PrepareBatch ds_example (ds_insert_sql ds_example (insert_req rows_bad)) = None
   \<and> 1 < length (insertReq_Rows (insert_req rows_bad))
   \<and> ds_Append ds_example [[JNum 1]] [JStr ''bad''] \<noteq> None
   \<and> (\<exists>err. fst (ds_insert ds_example insert_body_bad) =
            \<lparr>status = 400, body = Marshal (JObj [(''error'', JStr (''row append: '' @ err))]),
              headers = json_headers\<rparr>)
   \<and> DsSend \<notin> set (snd (ds_insert ds_example insert_body_bad))"
proof -
  have l: "1 < length (insertReq_Rows (insert_req rows_bad))"
    by (simp add: insert_req_def rows_bad_def)
  have a: "ds_Append ds_example [[JNum 1]] [JStr ''bad''] \<noteq> None"
    by (simp add: ds_example_def)
  have a': "ds_Append ds_example
           (map (\<lambda>r. map (row_get r) (ds_insert_cols ds_example (insert_req rows_bad)))
              (take 1 (insertReq_Rows (insert_req rows_bad))))
           (map (row_get (insertReq_Rows (insert_req rows_bad) ! 1))
              (ds_insert_cols ds_example (insert_req rows_bad))) \<noteq> None"
    unfolding ds_example_cols_bad
    using a by (simp add: insert_req_def rows_bad_def row_get_def)
  from ds_insert_append_failure_aborts [OF ds_example_decode_bad ds_example_prepare l a']
    ds_example_decode_bad ds_example_prepare l a
  show ?thesis by simp
qed


lemma ds_example_send: "ds_Send ds_example bt = None"
  by (simp add: ds_example_def)

lemma ds_example_run_spec:
  "ds_insert ds_example insert_body_spec =
     (\<lparr>status = 200,
        body = Marshal (JObj [(''status'', JStr ''ok''), (''inserted'', JNum 2)]),
        headers = json_headers\<rparr>,
      [DsPrepareBatch ''INSERT INTO events (id)'', DsAppend [JNum 1], DsAppend [JNum 2], DsSend])"
proof -
  have rows: "insertReq_Rows (insert_req rows_spec) \<noteq> []"
    by (simp add: insert_req_def rows_spec_def)
  have sql: "ds_insert_sql ds_example (insert_req rows_spec) = ''INSERT INTO events (id)''"
    unfolding ds_insert_sql_def ds_example_cols_spec
    by (simp add: insert_req_def)
  have app: "ds_append_rows ds_example [''id''] rows_spec [] =
               (Inr [[JNum 1], [JNum 2]], [DsAppend [JNum 1], DsAppend [JNum 2]])"
    by (simp add: rows_spec_def row_get_def ds_example_def Let_def)
  have r: "insertReq_Rows (insert_req rows_spec) = rows_spec"
    by (simp add: insert_req_def)
  show ?thesis
    unfolding ds_insert_decoded [OF ds_example_decode_spec rows ds_example_prepare]
      ds_example_cols_spec r app sql
    by (simp add: ds_example_send respond_def StatusOK_def rows_spec_def)
qed

lemma http_example_run_spec:
  "http_Unmarshal_insert http_example insert_body_spec httpInsertReq_zero
     = (\<lparr>httpInsertReq_Table = ''events'', httpInsertReq_Database = [],
          httpInsertReq_Rows = rows_spec\<rparr>, None)"
  by (simp add: http_example_def httpInsertReq_zero_def)


lemma http_example_sent_spec:
  "\<exists>r. snd (http_insert http_example insert_body_spec) = [HttpDo r]"
  by (simp add: http_insert_def http_example_run_spec Let_def NewRequest_def set_auth_def
        split: option.splits)
     (simp add: http_example_def stringContainsCTLByte_def)

theorem insert_success_reports_row_count_witness:
  "ds_Unmarshal_insert ds_example insert_body_spec insertReq_zero = (insert_req rows_spec, None)
   \<and> DsSend \<in> set (snd (ds_insert ds_example insert_body_spec))
   \<and> ds_Send ds_example
        (map (\<lambda>r. map (row_get r) (ds_insert_cols ds_example (insert_req rows_spec)))
           (insertReq_Rows (insert_req rows_spec))) = None
   \<and> fst (ds_insert ds_example insert_body_spec) =
        \<lparr>status = 200,
          body = Marshal (JObj [(''status'', JStr ''ok''), (''inserted'', JNum 2)]),
          headers = json_headers\<rparr>
   \<and> (\<exists>hreq r rb.
         http_Unmarshal_insert http_example insert_body_spec httpInsertReq_zero = (hreq, None)
       \<and> snd (http_insert http_example insert_body_spec) = [HttpDo r]
       \<and> http_Do http_example r = Inr (200, rb)
       \<and> length (httpInsertReq_Rows hreq) = 2)
   \<and> fst (http_insert http_example insert_body_spec) =
        Reply \<lparr>status = 200,
                body = Marshal (JObj [(''status'', JStr ''ok''), (''inserted'', JNum 2)]),
                headers = json_headers\<rparr>"
proof -
  have sent: "DsSend \<in> set (snd (ds_insert ds_example insert_body_spec))"
    by (simp add: ds_example_run_spec)
  have len: "int (length (insertReq_Rows (insert_req rows_spec))) = 2"
    by (simp add: insert_req_def rows_spec_def)
  from http_example_sent_spec obtain r where
    r: "snd (http_insert http_example insert_body_spec) = [HttpDo r]" ..
  have do: "http_Do http_example r = Inr (200, [])"
    by (simp add: http_example_def)
  have hlen: "length (httpInsertReq_Rows \<lparr>httpInsertReq_Table = ''events'',
                 httpInsertReq_Database = [], httpInsertReq_Rows = rows_spec\<rparr>) = 2"
    by (simp add: rows_spec_def)
  note t = insert_success_reports_row_count
    [where p = ds_example and b = insert_body_spec and req = "insert_req rows_spec"
       and hp = http_example and hb = insert_body_spec
       and hreq = "\<lparr>httpInsertReq_Table = ''events'', httpInsertReq_Database = [],
                     httpInsertReq_Rows = rows_spec\<rparr>"
       and r = r and rb = "[]"]
  from t ds_example_decode_spec sent ds_example_send len
  have n: "fst (ds_insert ds_example insert_body_spec) =
        \<lparr>status = 200,
          body = Marshal (JObj [(''status'', JStr ''ok''), (''inserted'', JNum 2)]),
          headers = json_headers\<rparr>"
    by simp
  from t http_example_run_spec r do hlen
  have h: "fst (http_insert http_example insert_body_spec) =
        Reply \<lparr>status = 200,
                body = Marshal (JObj [(''status'', JStr ''ok''), (''inserted'', JNum 2)]),
                headers = json_headers\<rparr>"
    by simp
  from ds_example_decode_spec sent ds_example_send n h http_example_run_spec r do hlen
  show ?thesis by blast
qed

lemma ds_example_range_ragged:
  "ds_range ds_example [''id'' \<mapsto> JNum 1, ''ts'' \<mapsto> JNum 7] = [''id'', ''ts'']"
  by (simp add: ds_example_def)

theorem ds_insert_columns_from_first_row_witness:
  "ds_Unmarshal_insert ds_example insert_body_ragged insertReq_zero = (insert_req rows_ragged, None)
   \<and> insertReq_Columns (insert_req rows_ragged) = []
   \<and> insertReq_Rows (insert_req rows_ragged)
        = [[''id'' \<mapsto> JNum 1, ''ts'' \<mapsto> JNum 7], [''ts'' \<mapsto> JNum 8, ''x'' \<mapsto> JBool True]]
   \<and> set (ds_range ds_example [''id'' \<mapsto> JNum 1, ''ts'' \<mapsto> JNum 7])
        = dom [''id'' \<mapsto> JNum 1, ''ts'' \<mapsto> JNum 7]
   \<and> ds_insert_cols ds_example (insert_req rows_ragged) = [''id'', ''ts'']
   \<and> DsSend \<in> set (snd (ds_insert ds_example insert_body_ragged))
   \<and> snd (ds_insert ds_example insert_body_ragged)
        = [DsPrepareBatch ''INSERT INTO events (id, ts)'',
           DsAppend [JNum 1, JNum 7], DsAppend [JNil, JNum 8], DsSend]"
proof -
  let ?r0 = "[''id'' \<mapsto> JNum 1, ''ts'' \<mapsto> JNum 7]"
  let ?r1 = "[''ts'' \<mapsto> JNum 8, ''x'' \<mapsto> JBool True]"
  have c: "insertReq_Columns (insert_req rows_ragged) = []"
    by (simp add: insert_req_def)
  have r: "insertReq_Rows (insert_req rows_ragged) = [?r0, ?r1]"
    by (simp add: insert_req_def rows_ragged_def)
  have k: "set (ds_range ds_example ?r0) = dom ?r0"
    by (auto simp: ds_example_range_ragged)
  note t = ds_insert_columns_from_first_row [OF ds_example_decode_ragged c r k]
  from t have cols: "ds_insert_cols ds_example (insert_req rows_ragged) = [''id'', ''ts'']"
    by (simp add: ds_example_range_ragged)
  have sql: "ds_insert_sql ds_example (insert_req rows_ragged) = ''INSERT INTO events (id, ts)''"
    unfolding ds_insert_sql_def cols by (simp add: insert_req_def)
  have rows: "insertReq_Rows (insert_req rows_ragged) \<noteq> []"
    by (simp add: r)
  have app: "fst (ds_append_rows ds_example [''id'', ''ts''] [?r0, ?r1] []) = Inr [[JNum 1, JNum 7], [JNil, JNum 8]]"
    by (simp add: row_get_def ds_example_def Let_def)
  have sent: "DsSend \<in> set (snd (ds_insert ds_example insert_body_ragged))"
    unfolding ds_insert_decoded [OF ds_example_decode_ragged rows ds_example_prepare] cols r app
    by simp
  from t sent have "snd (ds_insert ds_example insert_body_ragged)
        = DsPrepareBatch (ds_insert_sql ds_example (insert_req rows_ragged))
          # map (\<lambda>r. DsAppend (map (row_get r) (ds_range ds_example ?r0))) [?r0, ?r1] @ [DsSend]"
    by blast
  then have run: "snd (ds_insert ds_example insert_body_ragged)
        = [DsPrepareBatch ''INSERT INTO events (id, ts)'',
           DsAppend [JNum 1, JNum 7], DsAppend [JNil, JNum 8], DsSend]"
    by (simp add: sql ds_example_range_ragged row_get_def)
  from ds_example_decode_ragged c r k cols sent run show ?thesis
    by (simp only: simp_thms)
qed


subsection \<open>Decoding fallback of the relational adapter\<close>

text \<open>
  When the body does not decode, \<open>query\<close> and \<open>exec\<close> pass the whole body as the SQL
  text, together with the arguments the decoder left in the request; \<open>exec\<close> then answers
  200 or 500.
\<close>

lemma sql_decode_failure:
  assumes "snd (sql_Unmarshal p b sqlReq_zero) = Some err"
  shows "snd (sql_query p b) = [SqlQuery b (sqlReq_Args (fst (sql_Unmarshal p b sqlReq_zero)))]"
    and "snd (sql_exec p b) = [SqlExec b (sqlReq_Args (fst (sql_Unmarshal p b sqlReq_zero)))]"
    and "fst (sql_exec p b) = Reply m \<Longrightarrow> status m \<in> {200, 500}"
  using assms
  by (auto simp: sql_query_def sql_exec_def Let_def respond_def http_status_defs
           split: prod.splits sum.splits)

text \<open>
  C7. The claim says that a body that fails to decode is run as SQL text with an empty
  argument list. On the body \<open>{"args":[1],"sql":5}\<close> the decoder stores the \<open>args\<close>
  member, reports the ill-typed \<open>sql\<close> member as an error, and \<open>query\<close> and \<open>exec\<close> pass
  the body as SQL text together with the one argument that was stored: only \<open>req.SQL\<close>
  is overwritten on the error path.
\<close>

theorem sql_fallback_keeps_decoded_args:
  \<open>sql_Unmarshal sql_example ''{"args":[1],"sql":5}'' sqlReq_zero =
     (\<lparr>sqlReq_SQL = [], sqlReq_Args = [JNum 1]\<rparr>,
      Some ''json: cannot unmarshal number into Go struct field sqlReq.sql of type string'')
   \<and> snd (sql_query sql_example ''{"args":[1],"sql":5}'')
        = [SqlQuery ''{"args":[1],"sql":5}'' [JNum 1]]
   \<and> snd (sql_exec sql_example ''{"args":[1],"sql":5}'')
        = [SqlExec ''{"args":[1],"sql":5}'' [JNum 1]]\<close>
  by (simp add: sql_query_def sql_exec_def sql_example_def sqlReq_zero_def)

subsection \<open>Every path of the dispatchers\<close>

text \<open>
  Every path of the key-value, document and native columnar dispatchers returns a
  response built by \<open>respond\<close>. The relational dispatcher does so when the driver keeps
  its contract, the HTTP columnar dispatcher when \<open>http.NewRequest\<close> accepts the URL.
\<close>

lemma headers_respond [simp]: "headers (respond st d) = json_headers"
  by (simp add: respond_def)

lemma headers_respondRaw [simp]: "headers (respondRaw st d) = ndjson_headers"
  by (simp add: respondRaw_def)

lemma kv_ops_respond:
  "headers (fst (kv_health p)) = json_headers"
  "headers (fst (kv_get p b)) = json_headers"
  "headers (fst (kv_set p b)) = json_headers"
  "headers (fst (kv_mget p b)) = json_headers"
  "headers (fst (kv_cmd p b)) = json_headers"
proof -
  show "headers (fst (kv_health p)) = json_headers"
    by (simp add: kv_health_def split: option.splits)
  show "headers (fst (kv_get p b)) = json_headers"
    by (simp add: kv_get_def Let_def split: get_result.splits)
  show "headers (fst (kv_set p b)) = json_headers"
    by (simp add: kv_set_def split: option.splits prod.splits)
  show "headers (fst (kv_mget p b)) = json_headers"
    by (simp add: kv_mget_def split: option.splits prod.splits sum.splits)
  show "headers (fst (kv_cmd p b)) = json_headers"
    by (simp add: kv_cmd_def kv_do_def Let_def
          split: option.splits prod.splits sum.splits list.splits)
qed

lemma kv_handle_responds: "headers (fst (kv_handle p path b)) = json_headers"
  by (simp add: kv_handle_def kv_ops_respond)

lemma doc_ops_respond:
  "headers (fst (doc_health p)) = json_headers"
  "headers (fst (doc_find p b)) = json_headers"
  "headers (fst (doc_insert p b)) = json_headers"
  "headers (fst (doc_update p b)) = json_headers"
  "headers (fst (doc_del p b)) = json_headers"
proof -
  show "headers (fst (doc_health p)) = json_headers"
    by (simp add: doc_health_def split: option.splits)
  show "headers (fst (doc_find p b)) = json_headers"
    by (simp add: doc_find_def Let_def split: option.splits prod.splits sum.splits)
  show "headers (fst (doc_insert p b)) = json_headers"
    by (simp add: doc_insert_def Let_def split: option.splits prod.splits sum.splits)
  show "headers (fst (doc_update p b)) = json_headers"
    by (simp add: doc_update_def Let_def split: option.splits prod.splits sum.splits)
  show "headers (fst (doc_del p b)) = json_headers"
    by (simp add: doc_del_def Let_def split: option.splits prod.splits sum.splits)
qed

lemma doc_handle_responds: "headers (fst (doc_handle p path b)) = json_headers"
  by (simp add: doc_handle_def doc_ops_respond)

lemma ds_collect_responds: "headers (ds_collect cols scans e results) = json_headers"
  by (induction cols scans e results rule: ds_collect.induct) (simp_all split: option.splits)

lemma ds_ops_respond:
  "headers (fst (ds_health p)) = json_headers"
  "headers (fst (ds_query p b)) = json_headers"
  "headers (fst (ds_exec p b)) = json_headers"
  "headers (fst (ds_insert p b)) = json_headers"
  "headers (fst (ds_tables p b)) = json_headers"
proof -
  show "headers (fst (ds_health p)) = json_headers"
    by (simp add: ds_health_def Let_def split: option.splits)
  show "headers (fst (ds_query p b)) = json_headers"
    by (simp add: ds_query_def Let_def ds_collect_responds split: sum.splits)
  show "headers (fst (ds_exec p b)) = json_headers"
    by (simp add: ds_exec_def split: option.splits prod.splits)
  show "headers (fst (ds_insert p b)) = json_headers"
    by (simp add: ds_insert_def Let_def split: option.splits prod.splits sum.splits)
  show "headers (fst (ds_tables p b)) = json_headers"
    by (simp add: ds_tables_def Let_def split: sum.splits)
qed

lemma ds_handle_responds: "headers (fst (ds_handle p path b)) = json_headers"
  by (simp add: ds_handle_def ds_ops_respond)

lemma sql_row_total:
  "length descs \<le> length vals \<Longrightarrow> \<exists>r. sql_row descs vals row = Some r"
  by (induction descs vals row rule: sql_row.induct) simp_all

lemma sql_collect_responds:
  assumes "\<forall>vals. Inr vals \<in> set vs \<longrightarrow> length descs \<le> length vals"
  shows "\<exists>m. sql_collect descs vs results = Reply m \<and> headers m = json_headers"
  using assms
proof (induction descs vs results rule: sql_collect.induct)
  case (1 descs results)
  then show ?case by simp
next
  case (2 descs err rest results)
  then show ?case by simp
next
  case (3 descs vals rest results)
  then have "length descs \<le> length vals" by simp
  from sql_row_total [OF this] obtain r where r: "sql_row descs vals [] = Some r" by blast
  from 3 show ?case by (simp add: r)
qed

lemma sql_handle_responds:
  assumes "sql_driver_ok p"
  shows "\<exists>m. fst (sql_handle p path b) = Reply m \<and> headers m = json_headers"
proof -
  have q: "\<exists>m. fst (sql_query p b) = Reply m \<and> headers m = json_headers"
  proof -
    obtain req where req: "req = (case sql_Unmarshal p b sqlReq_zero of
                   (req, Some err) \<Rightarrow> req\<lparr>sqlReq_SQL := b\<rparr>
                 | (req, None) \<Rightarrow> req)" by simp
    show ?thesis
    proof (cases "sql_Query p (sqlReq_SQL req) (sqlReq_Args req)")
      case (Inl err)
      then show ?thesis using req by (simp add: sql_query_def Let_def)
    next
      case (Inr rows)
      with assms have "\<forall>vals. Inr vals \<in> set (sql_values rows) \<longrightarrow> length (sql_descs rows) \<le> length vals"
        unfolding sql_driver_ok_def by blast
      from sql_collect_responds [OF this, of "[]"] Inr req show ?thesis
        by (simp add: sql_query_def Let_def)
    qed
  qed
  have e: "\<exists>m. fst (sql_exec p b) = Reply m \<and> headers m = json_headers"
    by (simp add: sql_exec_def Let_def split: sum.splits prod.splits)
  have h: "\<exists>m. fst (sql_health p) = Reply m \<and> headers m = json_headers"
    by (simp add: sql_health_def split: option.splits)
  from q e h show ?thesis
    by (simp add: sql_handle_def)
qed

lemma set_auth_total:
  "http_ParseURL p u = None \<Longrightarrow> \<exists>r. set_auth p (NewRequest p m u b) = Some r"
  by (simp add: set_auth_def NewRequest_def Let_def)

lemma http_query_tail_responds:
  assumes "\<forall>u. http_ParseURL p u = None"
  shows "\<exists>m. fst (case set_auth p (NewRequest p ''POST'' url sql) of
         None \<Rightarrow> (Panic, [])
       | Some httpReq \<Rightarrow>
           (case http_Do p httpReq of
              Inl err \<Rightarrow> Reply (respond StatusBadGateway (error_body err))
            | Inr (code, respBody) \<Rightarrow>
                if code \<noteq> StatusOK then Reply (respond code (error_body respBody))
                else Reply (respondRaw StatusOK respBody),
            [HttpDo httpReq])) = Reply m \<and> headers m \<in> {json_headers, ndjson_headers}"
proof -
  from assms have "http_ParseURL p url = None" by simp
  from set_auth_total [OF this, of "''POST''" sql]
  obtain r where r: "set_auth p (NewRequest p ''POST'' url sql) = Some r" by blast
  show ?thesis
    by (cases "http_Do p r") (auto simp: r)
qed

lemma http_insert_tail_responds:
  assumes "\<forall>u. http_ParseURL p u = None"
  shows "\<exists>m. fst (case set_auth p (NewRequest p ''POST'' url buf) of
              None \<Rightarrow> (Panic, [])
            | Some httpReq \<Rightarrow>
                (case http_Do p httpReq of
                   Inl err \<Rightarrow> Reply (respond StatusBadGateway (error_body err))
                 | Inr (code, rb) \<Rightarrow>
                     if code \<noteq> StatusOK then Reply (respond code (error_body rb))
                     else Reply (respond StatusOK data),
                 [HttpDo httpReq])) = Reply m \<and> headers m \<in> {json_headers, ndjson_headers}"
proof -
  from assms have "http_ParseURL p url = None" by simp
  from set_auth_total [OF this, of "''POST''" buf]
  obtain r where r: "set_auth p (NewRequest p ''POST'' url buf) = Some r" by blast
  show ?thesis
    by (cases "http_Do p r") (auto simp: r)
qed

lemma http_handle_responds:
  assumes "\<forall>u. http_ParseURL p u = None"
  shows "\<exists>m. fst (http_handle p path b) = Reply m \<and> headers m \<in> {json_headers, ndjson_headers}"
proof -
  have q: "\<exists>m. fst (http_query p b) = Reply m \<and> headers m \<in> {json_headers, ndjson_headers}"
    unfolding http_query_def Let_def by (rule http_query_tail_responds [OF assms])
  have i: "\<exists>m. fst (http_insert p b) = Reply m \<and> headers m \<in> {json_headers, ndjson_headers}"
  proof (cases "http_Unmarshal_insert p b httpInsertReq_zero")
    case (Pair req0 e)
    show ?thesis
    proof (cases e)
      case None
      show ?thesis
        unfolding http_insert_def Pair None Let_def prod.case option.case
        by (rule http_insert_tail_responds [OF assms])
    next
      case (Some err)
      show ?thesis
        unfolding http_insert_def Pair Some by simp
    qed
  qed
  have h: "\<exists>m. fst (http_health p) = Reply m \<and> headers m \<in> {json_headers, ndjson_headers}"
    by (simp add: http_health_def Let_def split: option.splits)
  from q i h show ?thesis
    by (simp add: http_handle_def)
qed

lemma http_example_decode_ctl:
  "http_Unmarshal_query http_example http_ctl_body httpQuery_zero =
     (\<lparr>httpQuery_SQL = ''SELECT 1'', httpQuery_Database = [CHR 0x01], httpQuery_Format = []\<rparr>, None)"
  by (simp add: http_example_def httpQuery_zero_def)

lemma http_example_rejects_ctl:
  "http_ParseURL http_example (''http://clickhouse:8123/?database='' @ [CHR 0x01])
        = Some ''net/url: invalid control character in URL''"
  by (simp add: http_example_def stringContainsCTLByte_def)

lemma http_example_query_ctl: "http_query http_example http_ctl_body = (Panic, [])"
proof -
  have a: "http_addr http_example = ''clickhouse:8123''"
    by (simp add: http_example_def)
  have n: "NewRequest http_example ''POST'' (''http://clickhouse:8123/?database='' @ [CHR 0x01]) sql = None" for sql
    by (simp add: NewRequest_def http_example_rejects_ctl [simplified])
  show ?thesis
    unfolding http_query_def http_example_decode_ctl
    by (simp add: Let_def a n [simplified] set_auth_def)
qed

text \<open>
  C8. The claim says that every envelope handed to a dispatcher is answered, whatever
  the body. In the HTTP columnar adapter, \<open>query\<close> and \<open>insert\<close> drop the error of
  \<open>http.NewRequest\<close> and go on to set a header on the request. For the body
  \<open>http_ctl_body\<close> the URL built from the \<open>database\<close> member holds a control character,
  the request is \<open>nil\<close>, and \<open>handle\<close> panics without building a response.
\<close>

theorem http_query_panics_on_rejected_url:
  "http_Unmarshal_query http_example http_ctl_body httpQuery_zero =
     (\<lparr>httpQuery_SQL = ''SELECT 1'', httpQuery_Database = [CHR 0x01], httpQuery_Format = []\<rparr>, None)
   \<and> http_ParseURL http_example (''http://clickhouse:8123/?database='' @ [CHR 0x01])
        = Some ''net/url: invalid control character in URL''
   \<and> http_handle http_example ''/query'' http_ctl_body = (Panic, [])"
  using http_example_decode_ctl http_example_rejects_ctl http_example_query_ctl
  by (simp add: http_handle_def)

end
